theory Spec2Isabelle
  imports Main "HOL-Library.Word"
begin

unbundle bit_operations_syntax

section \<open>Bytes, strings and big-endian fields\<close>

text \<open>
  The responder of \<^verbatim>\<open>services/network/BonjourServer.cpp\<close> reads a DNS query from a
  rewindable reader and writes a DNS response into a writer. Bytes are \<open>8 word\<close>; a
  \<^verbatim>\<open>BoundedConstString\<close> is the list of its \<^verbatim>\<open>char\<close>s, which are bytes and go to the
  wire unchanged; \<^verbatim>\<open>uint16_t\<close> is \<open>16 word\<close>.
\<close>

type_synonym byte = "8 word"
type_synonym uint16 = "16 word"
type_synonym uint32 = "32 word"
type_synonym BoundedConstString = "byte list"

definition chars :: "string \<Rightarrow> BoundedConstString" where
  "chars s = map of_char s"

definition local_label :: BoundedConstString where
  "local_label = chars ''local''"

definition dot :: byte where
  "dot = of_char (CHR ''.'')"

text \<open>\<^verbatim>\<open>infra::BigEndian<uint16_t>\<close> and \<^verbatim>\<open>infra::BigEndian<uint32_t>\<close> as they lie in a packet.\<close>

definition BigEndian16 :: "uint16 \<Rightarrow> byte list" where
  "BigEndian16 v = [ucast (drop_bit 8 v), ucast v]"

definition BigEndian32 :: "uint32 \<Rightarrow> byte list" where
  "BigEndian32 v = [ucast (drop_bit 24 v), ucast (drop_bit 16 v), ucast (drop_bit 8 v), ucast v]"

definition FromBigEndian16 :: "byte \<Rightarrow> byte \<Rightarrow> uint16" where
  "FromBigEndian16 hi lo = push_bit 8 (ucast hi) OR ucast lo"

section \<open>DNS records\<close>

text \<open>
  Modelled from the spec: \<^verbatim>\<open>DnsRecordHeader\<close> is declared in \<^verbatim>\<open>services/network/Dns.hpp\<close>,
  which is not among the sources. Section 6 gives its layout: id, flags, qdcount,
  ancount, nscount, arcount, each a big-endian 16-bit number. The three last counts carry
  the prefix \<open>hdr\<close> here, since the answer builder has members of the same names.
\<close>

record DnsRecordHeader =
  id' :: uint16
  flags :: uint16
  questionsCount :: uint16
  hdrAnswersCount :: uint16
  hdrNameServersCount :: uint16
  hdrAdditionalRecordsCount :: uint16

text \<open>
  Modelled from the spec: the flag constants of \<^verbatim>\<open>DnsRecordHeader\<close>. Section 6 says that
  the opcode occupies a fixed mask and that one bit tells a response from a query; the
  values are those of RFC 1035.
\<close>

definition flagsQuery :: uint16 where "flagsQuery = 0"
definition flagsOpcodeQuery :: uint16 where "flagsOpcodeQuery = 0"
definition flagsResponse :: uint16 where "flagsResponse = 0x8000"
definition flagsOpcodeMask :: uint16 where "flagsOpcodeMask = 0x7800"

text \<open>
  Modelled from the spec: \<^verbatim>\<open>DnsQuestionFooter\<close> (\<^verbatim>\<open>Dns.hpp\<close>), the fixed part of a question
  in section 6: type and class.
\<close>

record DnsQuestionFooter =
  footer_type :: uint16
  footer_class :: uint16

text \<open>
  Modelled from the spec: \<^verbatim>\<open>DnsRecordPayload\<close> (\<^verbatim>\<open>Dns.hpp\<close>), the fixed part of an answer
  in section 6: type, class, time to live in seconds and the length of the resource data.
\<close>

record DnsRecordPayload =
  payload_type :: uint16
  payload_class :: uint16
  ttl :: uint32
  resourceDataLength :: uint16

text \<open>
  Modelled from the spec: the members of \<^verbatim>\<open>DnsType\<close> with the numbers of section 6, and
  the Internet class of \<^verbatim>\<open>DnsClass\<close>, which is 1 in RFC 1035.
\<close>

definition dnsTypeA :: uint16 where "dnsTypeA = 1"
definition dnsTypePtr :: uint16 where "dnsTypePtr = 12"
definition dnsTypeTxt :: uint16 where "dnsTypeTxt = 16"
definition dnsTypeAAAA :: uint16 where "dnsTypeAAAA = 28"
definition dnsTypeSrv :: uint16 where "dnsTypeSrv = 33"
definition dnsClassIn :: uint16 where "dnsClassIn = 1"

text \<open>
  Modelled from the spec: \<^verbatim>\<open>stream << header\<close> writes the twelve bytes of a header in the
  order of section 6.
\<close>

definition StreamHeader :: "DnsRecordHeader \<Rightarrow> byte list" where
  "StreamHeader h =
     BigEndian16 (id' h) @ BigEndian16 (flags h) @ BigEndian16 (questionsCount h)
     @ BigEndian16 (hdrAnswersCount h) @ BigEndian16 (hdrNameServersCount h)
     @ BigEndian16 (hdrAdditionalRecordsCount h)"

text \<open>
  Modelled from the spec: \<^verbatim>\<open>stream << payload\<close> writes the ten bytes of the fixed part of
  an answer in the order of section 6.
\<close>

definition StreamPayload :: "DnsRecordPayload \<Rightarrow> byte list" where
  "StreamPayload p =
     BigEndian16 (payload_type p) @ BigEndian16 (payload_class p) @ BigEndian32 (ttl p)
     @ BigEndian16 (resourceDataLength p)"

text \<open>The big-endian 16-bit number at a place of a list of bytes.\<close>

definition u16_at :: "byte list \<Rightarrow> nat \<Rightarrow> uint16" where
  "u16_at bs i = FromBigEndian16 (bs ! i) (bs ! (i + 1))"

text \<open>
  Modelled from the spec: \<^verbatim>\<open>stream >> header\<close> fills the header from the twelve bytes that
  the extraction delivered, in the order of section 6.
\<close>

definition ParseHeader :: "byte list \<Rightarrow> DnsRecordHeader" where
  "ParseHeader bs =
     \<lparr>id' = u16_at bs 0, flags = u16_at bs 2, questionsCount = u16_at bs 4,
      hdrAnswersCount = u16_at bs 6, hdrNameServersCount = u16_at bs 8,
      hdrAdditionalRecordsCount = u16_at bs 10\<rparr>"

text \<open>
  Modelled from the spec: \<^verbatim>\<open>stream >> footer\<close> fills the footer from the four bytes that
  the extraction delivered.
\<close>

definition ParseFooter :: "byte list \<Rightarrow> DnsQuestionFooter" where
  "ParseFooter bs = \<lparr>footer_type = u16_at bs 0, footer_class = u16_at bs 2\<rparr>"

text \<open>
  Modelled from the spec: the address types are declared outside the sources. Section 6:
  an IPv4 address is four bytes and an IPv6 address sixteen; they are written as they
  are (\<^verbatim>\<open>stream << *server.ipv4Address\<close>).
\<close>

datatype IPv4Address = IPv4Address byte byte byte byte

datatype IPv6Address =
  IPv6Address byte byte byte byte byte byte byte byte byte byte byte byte byte byte byte byte

fun IPv4Bytes :: "IPv4Address \<Rightarrow> byte list" where
  "IPv4Bytes (IPv4Address a b c d) = [a, b, c, d]"

fun IPv6Bytes :: "IPv6Address \<Rightarrow> byte list" where
  "IPv6Bytes (IPv6Address a b c d e f g h i j k l m n p q) =
     [a, b, c, d, e, f, g, h, i, j, k, l, m, n, p, q]"

text \<open>
  Modelled from the spec: \<^verbatim>\<open>UdpSocket\<close>, \<^verbatim>\<open>GetPort\<close> and \<^verbatim>\<open>MakeUdpSocket\<close> are declared
  outside the sources; section 6 has a source address and a destination, each an address
  with a port.
\<close>

datatype UdpSocket = Udpv4 IPv4Address uint16 | Udpv6 IPv6Address uint16

fun GetPort :: "UdpSocket \<Rightarrow> uint16" where
  "GetPort (Udpv4 a p) = p"
| "GetPort (Udpv6 a p) = p"

definition MakeUdpSocket :: "IPv4Address \<Rightarrow> uint16 \<Rightarrow> UdpSocket" where
  "MakeUdpSocket a p = Udpv4 a p"

text \<open>
  The constants of the anonymous namespace of \<^verbatim>\<open>BonjourServer.cpp\<close>;
  \<^verbatim>\<open>sizeof(DnsRecordHeader)\<close> is 12.
\<close>

definition rnameCompression :: "byte list" where
  "rnameCompression = [0xC0, 12]"

definition mdnsPort :: uint16 where
  "mdnsPort = 5353"

definition mdnsMulticastAddress :: IPv4Address where
  "mdnsMulticastAddress = IPv4Address 224 0 0 251"

section \<open>Domain names\<close>

text \<open>
  Modelled from the spec: \<^verbatim>\<open>DnsPartsWithoutTermination\<close> and the streaming of parts live in
  \<^verbatim>\<open>services/network/Dns.cpp\<close>, which is not among the sources. Section 4.1: the labels
  are concatenated, each preceded by a one-byte length.
\<close>

fun StreamParts :: "BoundedConstString list \<Rightarrow> byte list" where
  "StreamParts [] = []"
| "StreamParts (p # ps) = of_nat (length p) # p @ StreamParts ps"

text \<open>
  Modelled from the spec: \<^verbatim>\<open>stream << infra::text << dnsHostname\<close> for a
  \<^verbatim>\<open>DnsHostnameParts\<close> (\<^verbatim>\<open>Dns.cpp\<close>). Section 3: a name is its length-prefixed labels and
  then a zero-length label.
\<close>

definition StreamHostname :: "BoundedConstString list \<Rightarrow> byte list" where
  "StreamHostname parts = StreamParts parts @ [0]"

text \<open>
  Modelled from the spec: \<^verbatim>\<open>StreamedSize\<close> of \<^verbatim>\<open>DnsHostnameParts\<close> (\<^verbatim>\<open>Dns.cpp\<close>), the
  "encoded length" of a name in section 4.4: a byte and the label for each label, and
  the zero byte.
\<close>

fun PartsSize :: "BoundedConstString list \<Rightarrow> nat" where
  "PartsSize [] = 0"
| "PartsSize (p # ps) = 1 + length p + PartsSize ps"

definition StreamedSize :: "BoundedConstString list \<Rightarrow> nat" where
  "StreamedSize parts = PartsSize parts + 1"

text \<open>
  Modelled from the spec: \<^verbatim>\<open>DnsHostnamePartsString\<close> (\<^verbatim>\<open>Dns.cpp\<close>) walks over the labels
  of a dot-joined name (section 4.2); the labels are the pieces between the dots. The
  result is the list of the labels that \<^verbatim>\<open>Current\<close> and \<^verbatim>\<open>ConsumeCurrent\<close> go through
  until \<^verbatim>\<open>Empty\<close>.
\<close>

fun DnsHostnamePartsString :: "BoundedConstString \<Rightarrow> BoundedConstString list" where
  "DnsHostnamePartsString [] = [[]]"
| "DnsHostnamePartsString (c # cs) =
     (if c = dot then [] # DnsHostnamePartsString cs
      else (case DnsHostnamePartsString cs of
              [] \<Rightarrow> [[c]]
            | t # ts \<Rightarrow> (c # t) # ts))"

section \<open>The reader\<close>

text \<open>
  Modelled from the spec: the rewindable reader is one of the "reader/writer
  abstractions" of section 6, outside the sources: a forward-and-rewindable byte cursor.
  It is the datagram and a read position.
\<close>

record StreamReader =
  contents :: "byte list"
  position :: nat

text \<open>Modelled from the spec: the number of bytes that the cursor has not read.\<close>

definition Available :: "StreamReader \<Rightarrow> nat" where
  "Available r = length (contents r) - position r"

text \<open>
  Modelled from the spec: the extraction of \<open>n\<close> bytes by the input stream. It delivers
  them when they are there; otherwise it delivers nothing and uses up the reader, and
  the stream reports \<^verbatim>\<open>Failed()\<close> from then on.
\<close>

definition Extract :: "nat \<Rightarrow> StreamReader \<Rightarrow> byte list option \<times> StreamReader" where
  "Extract n r =
     (if n \<le> Available r
      then (Some (take n (drop (position r) (contents r))), r\<lparr>position := position r + n\<rparr>)
      else (None, r\<lparr>position := length (contents r)\<rparr>))"

text \<open>
  Modelled from the spec: a save marker is a read position (\<^verbatim>\<open>ConstructSaveMarker\<close>), and
  \<^verbatim>\<open>Rewind\<close> restores it.
\<close>

definition Rewind :: "nat \<Rightarrow> StreamReader \<Rightarrow> StreamReader" where
  "Rewind marker r = r\<lparr>position := marker\<rparr>"

text \<open>
  Modelled from the spec: the labels behind a compression pointer, for
  \<^verbatim>\<open>DnsHostnamePartsStream\<close> (\<^verbatim>\<open>Dns.cpp\<close>). Section 4.1: at most one pointer is followed
  per name, so a second pointer is an error, as is a label of more than 63 bytes and a
  name that the datagram cuts short.
\<close>

fun PlainLabels :: "byte list \<Rightarrow> BoundedConstString list option" where
  "PlainLabels [] = None"
| "PlainLabels (l # bs) =
     (if l = 0 then Some []
      else if 63 < unat l then None
      else if length bs < unat l then None
      else (case PlainLabels (drop (unat l) bs) of
              None \<Rightarrow> None
            | Some ls \<Rightarrow> Some (take (unat l) bs # ls)))"

text \<open>
  Modelled from the spec: the name whose bytes \<open>bs\<close> start at position \<open>p\<close> of the
  datagram \<open>d\<close>, for \<^verbatim>\<open>DnsHostnamePartsStream\<close>. Section 3: a name is a sequence of
  length-prefixed labels ended by a zero-length label or by a two-byte back-pointer (top
  two bits set) to an earlier place of the packet. The result is the labels and the
  position behind the name.
\<close>

fun Labels :: "byte list \<Rightarrow> nat \<Rightarrow> byte list \<Rightarrow> (BoundedConstString list \<times> nat) option" where
  "Labels d p [] = None"
| "Labels d p (l # bs) =
     (if l = 0 then Some ([], p + 1)
      else if l AND 0xC0 = 0xC0 then
        (case bs of
           [] \<Rightarrow> None
         | lo # rest \<Rightarrow>
             (let offset = unat (FromBigEndian16 (l AND 0x3F) lo)
              in if offset < p
                 then (case PlainLabels (drop offset d) of
                         None \<Rightarrow> None
                       | Some ls \<Rightarrow> Some (ls, p + 2))
                 else None))
      else if 63 < unat l then None
      else if length bs < unat l then None
      else (case Labels d (p + 1 + unat l) (drop (unat l) bs) of
              None \<Rightarrow> None
            | Some (ls, e) \<Rightarrow> Some (take (unat l) bs # ls, e)))"

text \<open>
  Modelled from the spec: \<^verbatim>\<open>DnsHostnamePartsStream\<close> (\<^verbatim>\<open>Dns.cpp\<close>) decodes the name at the
  reader's position; a name is at most 255 bytes (section 4.1). The code asks the
  decoder only for its labels (\<^verbatim>\<open>Empty\<close>, \<^verbatim>\<open>Current\<close>, \<^verbatim>\<open>ConsumeCurrent\<close>) and then calls
  \<^verbatim>\<open>ConsumeStream\<close>; it has no way to ask for an error. The result is the list of labels
  and the reader behind the name. A malformed name is an error that must invalidate the
  query (sections 4.3 and 7), and the one test the code makes is that of the stream
  behind the footer: so on a malformed name the decoder has no labels and leaves the
  reader used up.
\<close>

definition DnsHostnamePartsStream :: "StreamReader \<Rightarrow> BoundedConstString list \<times> StreamReader" where
  "DnsHostnamePartsStream r =
     (case Labels (contents r) (position r) (drop (position r) (contents r)) of
        None \<Rightarrow> ([], r\<lparr>position := length (contents r)\<rparr>)
      | Some (ls, e) \<Rightarrow>
          if 255 < StreamedSize ls then ([], r\<lparr>position := length (contents r)\<rparr>)
          else (ls, r\<lparr>position := e\<rparr>))"

section \<open>The writer\<close>

text \<open>
  Modelled from the spec: the writers are outside the sources too. The dry run writes
  into a \<^verbatim>\<open>CountingStreamWriter\<close>, which keeps the number of bytes only (section 4.3: a
  size-only counting sink); the real pass writes into the buffer that the transport
  granted for \<^verbatim>\<open>Processed()\<close> bytes, which has room for all that the pass writes.
\<close>

datatype StreamWriter = CountingStreamWriter nat | ByteOutputStreamWriter "byte list"

text \<open>Modelled from the spec: \<^verbatim>\<open>Insert\<close> appends bytes to the sink (section 6).\<close>

fun Insert :: "byte list \<Rightarrow> StreamWriter \<Rightarrow> StreamWriter" where
  "Insert bs (CountingStreamWriter n) = CountingStreamWriter (n + length bs)"
| "Insert bs (ByteOutputStreamWriter out) = ByteOutputStreamWriter (out @ bs)"

text \<open>Modelled from the spec: \<^verbatim>\<open>Processed\<close> is the number of bytes written so far.\<close>

fun Processed :: "StreamWriter \<Rightarrow> nat" where
  "Processed (CountingStreamWriter n) = n"
| "Processed (ByteOutputStreamWriter out) = length out"

text \<open>
  Modelled from the spec: a save marker of a writer is the output position (section 4.4:
  the output position of the header).
\<close>

fun ConstructSaveMarker :: "StreamWriter \<Rightarrow> nat" where
  "ConstructSaveMarker (CountingStreamWriter n) = n"
| "ConstructSaveMarker (ByteOutputStreamWriter out) = length out"

text \<open>
  Modelled from the spec: writing through an \<^verbatim>\<open>OverwriteDataStream\<close> at a marker replaces
  the bytes that were written there, in place (sections 4.4 and 6); a counting writer
  holds no bytes.
\<close>

fun Overwrite :: "nat \<Rightarrow> byte list \<Rightarrow> StreamWriter \<Rightarrow> StreamWriter" where
  "Overwrite marker bs (CountingStreamWriter n) = CountingStreamWriter n"
| "Overwrite marker bs (ByteOutputStreamWriter out) =
     ByteOutputStreamWriter (take marker out @ bs @ drop (marker + length bs) out)"

section \<open>The responder's configuration\<close>

text \<open>
  The members that the constructor of \<^verbatim>\<open>BonjourServer\<close> sets from its arguments, fixed
  for the responder's lifetime. \<^verbatim>\<open>instance\<close>, \<^verbatim>\<open>type\<close> and \<^verbatim>\<open>text\<close> carry a prime here.
  The text is a \<^verbatim>\<open>DnsHostnameParts\<close>: a list of parts.
\<close>

record BonjourServer =
  instance' :: BoundedConstString
  serviceName :: BoundedConstString
  type' :: BoundedConstString
  ipv4Address :: "IPv4Address option"
  ipv6Address :: "IPv6Address option"
  port :: uint16
  text' :: "BoundedConstString list"

section \<open>BonjourServer::Answer\<close>

text \<open>
  The answer builder holds a reference to the writer; the writer outlives it. So an
  operation of the builder takes the pair of the builder's members and the writer, and
  returns both. The members are declared in \<^verbatim>\<open>BonjourServer.hpp\<close>, which is not among the
  sources: the query id, the start marker and the three counts that \<^verbatim>\<open>Finish\<close> writes
  into the 16-bit fields of the header; the counts start at zero (section 3).
\<close>

record Answer =
  queryId :: uint16
  startMarker :: nat
  answersCount :: uint16
  nameServersCount :: uint16
  additionalRecordsCount :: uint16

text \<open>
  The constructor's local \<^verbatim>\<open>header{ queryId, DnsRecordHeader::flagsResponse, 0, 0, 0, 0 }\<close>.
  The members \<^verbatim>\<open>stream\<close> and \<^verbatim>\<open>startMarker\<close> are initialised before the constructor's
  body writes it.
\<close>

definition ProvisionalHeader :: "uint16 \<Rightarrow> DnsRecordHeader" where
  "ProvisionalHeader qid =
     \<lparr>id' = qid, flags = flagsResponse, questionsCount = 0, hdrAnswersCount = 0,
      hdrNameServersCount = 0, hdrAdditionalRecordsCount = 0\<rparr>"

definition Answer_new :: "uint16 \<Rightarrow> StreamWriter \<Rightarrow> Answer \<times> StreamWriter" where
  "Answer_new qid w =
     (\<lparr>queryId = qid, startMarker = ConstructSaveMarker w, answersCount = 0, nameServersCount = 0,
       additionalRecordsCount = 0\<rparr>,
      Insert (StreamHeader (ProvisionalHeader qid)) w)"

definition Answers :: "Answer \<Rightarrow> nat" where
  "Answers a = unat (answersCount a)"

text \<open>
  \<^verbatim>\<open>AddA\<close> and \<^verbatim>\<open>AddAaaa\<close> dereference the optional address; both of their callers
  test it first, so the branch without an address is not reached.
\<close>

definition AddA :: "BonjourServer \<Rightarrow> BoundedConstString list \<Rightarrow> Answer \<times> StreamWriter \<Rightarrow> Answer \<times> StreamWriter" where
  "AddA server dnsHostname aw =
     (case ipv4Address server of
        None \<Rightarrow> aw
      | Some address \<Rightarrow>
          (fst aw,
           Insert (IPv4Bytes address)
             (Insert (StreamPayload \<lparr>payload_type = dnsTypeA, payload_class = dnsClassIn,
                        ttl = 60, resourceDataLength = 4\<rparr>)
                (Insert (StreamHostname dnsHostname) (snd aw)))))"

definition AddAaaa :: "BonjourServer \<Rightarrow> BoundedConstString list \<Rightarrow> Answer \<times> StreamWriter \<Rightarrow> Answer \<times> StreamWriter" where
  "AddAaaa server dnsHostname aw =
     (case ipv6Address server of
        None \<Rightarrow> aw
      | Some address \<Rightarrow>
          (fst aw,
           Insert (IPv6Bytes address)
             (Insert (StreamPayload \<lparr>payload_type = dnsTypeAAAA, payload_class = dnsClassIn,
                        ttl = 60, resourceDataLength = 16\<rparr>)
                (Insert (StreamHostname dnsHostname) (snd aw)))))"

definition AddPtr :: "BonjourServer \<Rightarrow> BoundedConstString list \<Rightarrow> Answer \<times> StreamWriter \<Rightarrow> Answer \<times> StreamWriter" where
  "AddPtr server dnsHostname aw =
     (let instance = [instance' server, serviceName server, type' server, local_label]
      in (fst aw,
          Insert (StreamHostname instance)
            (Insert (StreamPayload \<lparr>payload_type = dnsTypePtr, payload_class = dnsClassIn,
                       ttl = 60, resourceDataLength = of_nat (StreamedSize instance)\<rparr>)
               (Insert (StreamHostname dnsHostname) (snd aw)))))"

definition AddSrv :: "BonjourServer \<Rightarrow> BoundedConstString list \<Rightarrow> Answer \<times> StreamWriter \<Rightarrow> Answer \<times> StreamWriter" where
  "AddSrv server dnsHostname aw =
     (let instance = [instance' server, local_label]
      in (fst aw,
          Insert (StreamHostname instance)
            (Insert (StreamPayload \<lparr>payload_type = dnsTypeSrv, payload_class = dnsClassIn,
                       ttl = 60, resourceDataLength = of_nat (StreamedSize instance + 6)\<rparr>
                     @ BigEndian16 0 @ BigEndian16 0 @ BigEndian16 (port server))
               (Insert (StreamHostname dnsHostname) (snd aw)))))"

definition AddTxt :: "BonjourServer \<Rightarrow> BoundedConstString list \<Rightarrow> Answer \<times> StreamWriter \<Rightarrow> Answer \<times> StreamWriter" where
  "AddTxt server dnsHostname aw =
     (fst aw,
      Insert (StreamParts (text' server))
        (Insert (StreamPayload \<lparr>payload_type = dnsTypeTxt, payload_class = dnsClassIn,
                   ttl = 60, resourceDataLength = of_nat (StreamedSize (text' server) - 1)\<rparr>)
           (Insert (StreamHostname dnsHostname) (snd aw))))"

definition AddAAnswer :: "BonjourServer \<Rightarrow> Answer \<times> StreamWriter \<Rightarrow> Answer \<times> StreamWriter" where
  "AddAAnswer server aw =
     (if ipv4Address server \<noteq> None
      then AddA server [instance' server, local_label]
             ((fst aw)\<lparr>answersCount := answersCount (fst aw) + 1\<rparr>, snd aw)
      else aw)"

definition AddAaaaAnswer :: "BonjourServer \<Rightarrow> Answer \<times> StreamWriter \<Rightarrow> Answer \<times> StreamWriter" where
  "AddAaaaAnswer server aw =
     (if ipv6Address server \<noteq> None
      then AddAaaa server [instance' server, local_label]
             ((fst aw)\<lparr>answersCount := answersCount (fst aw) + 1\<rparr>, snd aw)
      else aw)"

definition AddPtrAnswer :: "BonjourServer \<Rightarrow> Answer \<times> StreamWriter \<Rightarrow> Answer \<times> StreamWriter" where
  "AddPtrAnswer server aw =
     AddPtr server [serviceName server, type' server, local_label]
       ((fst aw)\<lparr>answersCount := answersCount (fst aw) + 1\<rparr>, snd aw)"

definition AddSrvAnswer :: "BonjourServer \<Rightarrow> Answer \<times> StreamWriter \<Rightarrow> Answer \<times> StreamWriter" where
  "AddSrvAnswer server aw =
     AddSrv server [instance' server, serviceName server, type' server, local_label]
       ((fst aw)\<lparr>answersCount := answersCount (fst aw) + 1\<rparr>, snd aw)"

definition AddTxtAnswer :: "BonjourServer \<Rightarrow> Answer \<times> StreamWriter \<Rightarrow> Answer \<times> StreamWriter" where
  "AddTxtAnswer server aw =
     AddTxt server [instance' server, serviceName server, type' server, local_label]
       ((fst aw)\<lparr>answersCount := answersCount (fst aw) + 1\<rparr>, snd aw)"

definition AddAAdditional :: "BonjourServer \<Rightarrow> Answer \<times> StreamWriter \<Rightarrow> Answer \<times> StreamWriter" where
  "AddAAdditional server aw =
     (if ipv4Address server \<noteq> None
      then AddA server [instance' server, local_label]
             ((fst aw)\<lparr>additionalRecordsCount := additionalRecordsCount (fst aw) + 1\<rparr>, snd aw)
      else aw)"

definition AddAaaaAdditional :: "BonjourServer \<Rightarrow> Answer \<times> StreamWriter \<Rightarrow> Answer \<times> StreamWriter" where
  "AddAaaaAdditional server aw =
     (if ipv6Address server \<noteq> None
      then AddAaaa server [instance' server, local_label]
             ((fst aw)\<lparr>additionalRecordsCount := additionalRecordsCount (fst aw) + 1\<rparr>, snd aw)
      else aw)"

definition AddSrvAdditional :: "BonjourServer \<Rightarrow> Answer \<times> StreamWriter \<Rightarrow> Answer \<times> StreamWriter" where
  "AddSrvAdditional server aw =
     AddSrv server [instance' server, serviceName server, type' server, local_label]
       ((fst aw)\<lparr>additionalRecordsCount := additionalRecordsCount (fst aw) + 1\<rparr>, snd aw)"

definition AddTxtAdditional :: "BonjourServer \<Rightarrow> Answer \<times> StreamWriter \<Rightarrow> Answer \<times> StreamWriter" where
  "AddTxtAdditional server aw =
     AddTxt server [instance' server, serviceName server, type' server, local_label]
       ((fst aw)\<lparr>additionalRecordsCount := additionalRecordsCount (fst aw) + 1\<rparr>, snd aw)"

definition FinalHeader :: "Answer \<Rightarrow> DnsRecordHeader" where
  "FinalHeader a =
     \<lparr>id' = queryId a, flags = flagsResponse, questionsCount = 0,
      hdrAnswersCount = answersCount a, hdrNameServersCount = nameServersCount a,
      hdrAdditionalRecordsCount = additionalRecordsCount a\<rparr>"

definition Finish :: "Answer \<times> StreamWriter \<Rightarrow> Answer \<times> StreamWriter" where
  "Finish aw = (fst aw, Overwrite (startMarker (fst aw)) (StreamHeader (FinalHeader (fst aw))) (snd aw))"

section \<open>BonjourServer::QuestionParser\<close>

text \<open>
  The parser's members, which \<^verbatim>\<open>BonjourServer.hpp\<close> declares (it is not among the
  sources): the reader and the failure flag of the input stream on it, the header and
  the footer read last, the dot-joined name read last, the flag \<^verbatim>\<open>valid\<close>, the optional
  answer builder and the writer it writes to. \<open>aborted\<close> records that \<^verbatim>\<open>std::abort()\<close>
  was reached.
\<close>

record QuestionParser =
  reader :: StreamReader
  failed :: bool
  header :: DnsRecordHeader
  footer :: DnsQuestionFooter
  reconstructedHostname :: BoundedConstString
  valid :: bool
  answer :: "Answer option"
  writer :: StreamWriter
  aborted :: bool

text \<open>
  The members as they are before the constructor's body runs: nothing has failed, the
  attempt is valid (or the loops of \<^verbatim>\<open>CreateAnswer\<close> would never run) and there is no
  builder.
\<close>

definition QuestionParser_members :: "StreamReader \<Rightarrow> StreamWriter \<Rightarrow> QuestionParser" where
  "QuestionParser_members r w =
     \<lparr>reader = r, failed = False,
      header = \<lparr>id' = 0, flags = 0, questionsCount = 0, hdrAnswersCount = 0,
                hdrNameServersCount = 0, hdrAdditionalRecordsCount = 0\<rparr>,
      footer = \<lparr>footer_type = 0, footer_class = 0\<rparr>,
      reconstructedHostname = [], valid = True, answer = None, writer = w,
      aborted = False\<rparr>"

text \<open>\<^verbatim>\<open>stream >> header\<close> and \<^verbatim>\<open>stream >> footer\<close>.\<close>

definition ReadHeader :: "QuestionParser \<Rightarrow> QuestionParser" where
  "ReadHeader q =
     (case Extract 12 (reader q) of
        (None, r) \<Rightarrow> q\<lparr>reader := r, failed := True\<rparr>
      | (Some bs, r) \<Rightarrow> q\<lparr>reader := r, header := ParseHeader bs\<rparr>)"

definition ReadFooter :: "QuestionParser \<Rightarrow> QuestionParser" where
  "ReadFooter q =
     (case Extract 4 (reader q) of
        (None, r) \<Rightarrow> q\<lparr>reader := r, failed := True\<rparr>
      | (Some bs, r) \<Rightarrow> q\<lparr>reader := r, footer := ParseFooter bs\<rparr>)"

definition IsValidQuestion :: "QuestionParser \<Rightarrow> bool" where
  "IsValidQuestion q =
     (if failed q then False
      else if flags (header q) AND flagsOpcodeMask \<noteq> flagsOpcodeQuery then False
      else if flags (header q) AND flagsResponse \<noteq> flagsQuery then False
      else if hdrAnswersCount (header q) \<noteq> 0 then False
      else if hdrNameServersCount (header q) \<noteq> 0 then False
      else if hdrAdditionalRecordsCount (header q) \<noteq> 0 then False
      else True)"

text \<open>
  The loop of \<^verbatim>\<open>ReadHostname\<close> appends each label and, when another one follows, a dot.
\<close>

fun JoinParts :: "BoundedConstString list \<Rightarrow> BoundedConstString" where
  "JoinParts [] = []"
| "JoinParts (p # ps) = p @ (if ps \<noteq> [] then dot # JoinParts ps else [])"

definition ReadHostname :: "QuestionParser \<Rightarrow> QuestionParser" where
  "ReadHostname q =
     (case DnsHostnamePartsStream (reader q) of
        (hostnameParts, r) \<Rightarrow> q\<lparr>reconstructedHostname := JoinParts hostnameParts, reader := r\<rparr>)"

text \<open>
  The loop of \<^verbatim>\<open>HostNameIs\<close> over the remaining labels of the name and the remaining
  components; where it stops, the result is \<^verbatim>\<open>parts.Empty() && components.empty()\<close>.
\<close>

fun HostNameIsLoop :: "BoundedConstString list \<Rightarrow> BoundedConstString list \<Rightarrow> bool" where
  "HostNameIsLoop (p # parts) (c # components) =
     (if p = c then HostNameIsLoop parts components else False)"
| "HostNameIsLoop parts components = (parts = [] \<and> components = [])"

definition HostNameIs :: "QuestionParser \<Rightarrow> BoundedConstString list \<Rightarrow> bool" where
  "HostNameIs q components =
     HostNameIsLoop (DnsHostnamePartsString (reconstructedHostname q)) components"

definition MyFullInstanceName :: "BonjourServer \<Rightarrow> QuestionParser \<Rightarrow> bool" where
  "MyFullInstanceName server q =
     HostNameIs q [instance' server, serviceName server, type' server, local_label]"

definition MyShortInstanceName :: "BonjourServer \<Rightarrow> QuestionParser \<Rightarrow> bool" where
  "MyShortInstanceName server q = HostNameIs q [instance' server, local_label]"

definition MyServiceName :: "BonjourServer \<Rightarrow> QuestionParser \<Rightarrow> bool" where
  "MyServiceName server q = HostNameIs q [serviceName server, type' server, local_label]"

definition IsFooterValid :: "QuestionParser \<Rightarrow> bool" where
  "IsFooterValid q =
     (if footer_type (footer q) \<noteq> dnsTypeA \<and> footer_type (footer q) \<noteq> dnsTypeAAAA
         \<and> footer_type (footer q) \<noteq> dnsTypePtr \<and> footer_type (footer q) \<noteq> dnsTypeSrv
         \<and> footer_type (footer q) \<noteq> dnsTypeTxt
      then False
      else if footer_class (footer q) \<noteq> dnsClassIn then False
      else True)"

definition IsQueryForMe :: "BonjourServer \<Rightarrow> QuestionParser \<Rightarrow> bool" where
  "IsQueryForMe server q =
     (if footer_type (footer q) = dnsTypeA \<and> MyShortInstanceName server q then True
      else if footer_type (footer q) = dnsTypeAAAA \<and> MyShortInstanceName server q then True
      else if footer_type (footer q) = dnsTypeSrv \<and> MyFullInstanceName server q then True
      else if footer_type (footer q) = dnsTypeTxt \<and> MyFullInstanceName server q then True
      else if footer_type (footer q) = dnsTypePtr \<and> MyServiceName server q then True
      else False)"

text \<open>
  \<^verbatim>\<open>answer->f()\<close>: the builder exists whenever the parser reads questions, since
  \<^verbatim>\<open>CreateAnswer\<close> emplaces it before its loops.
\<close>

definition on_answer :: "(Answer \<times> StreamWriter \<Rightarrow> Answer \<times> StreamWriter) \<Rightarrow> QuestionParser \<Rightarrow> QuestionParser" where
  "on_answer f q =
     (case answer q of
        None \<Rightarrow> q
      | Some a \<Rightarrow> (case f (a, writer q) of (a', w') \<Rightarrow> q\<lparr>answer := Some a', writer := w'\<rparr>))"

definition ReadQuestion :: "BonjourServer \<Rightarrow> QuestionParser \<Rightarrow> QuestionParser" where
  "ReadQuestion server q0 =
     (let q = ReadFooter (ReadHostname q0)
      in if failed q \<or> \<not> IsFooterValid q then q\<lparr>valid := False\<rparr>
         else if IsQueryForMe server q then
           (if footer_type (footer q) = dnsTypeA then on_answer (AddAAnswer server) q
            else if footer_type (footer q) = dnsTypeAAAA then on_answer (AddAaaaAnswer server) q
            else if footer_type (footer q) = dnsTypePtr then on_answer (AddPtrAnswer server) q
            else if footer_type (footer q) = dnsTypeSrv then on_answer (AddSrvAnswer server) q
            else if footer_type (footer q) = dnsTypeTxt then on_answer (AddTxtAnswer server) q
            else q\<lparr>aborted := True\<rparr>)
         else q)"

definition ReadQuestionForAdditionalRecords :: "BonjourServer \<Rightarrow> QuestionParser \<Rightarrow> QuestionParser" where
  "ReadQuestionForAdditionalRecords server q0 =
     (let q = ReadFooter (ReadHostname q0)
      in if IsQueryForMe server q then
           (if footer_type (footer q) = dnsTypePtr then
              on_answer (AddAaaaAdditional server)
                (on_answer (AddAAdditional server)
                   (on_answer (AddSrvAdditional server)
                      (on_answer (AddTxtAdditional server) q)))
            else if footer_type (footer q) = dnsTypeSrv then
              on_answer (AddAaaaAdditional server) (on_answer (AddAAdditional server) q)
            else q)
         else q)"

text \<open>
  The two loops \<^verbatim>\<open>for (auto i = 0; valid && i != header.questionsCount; ++i)\<close>, by the
  number of rounds that are left. Nothing runs after \<^verbatim>\<open>std::abort()\<close>.
\<close>

fun ReadQuestions :: "nat \<Rightarrow> BonjourServer \<Rightarrow> QuestionParser \<Rightarrow> QuestionParser" where
  "ReadQuestions 0 server q = q"
| "ReadQuestions (Suc n) server q =
     (if valid q \<and> \<not> aborted q then ReadQuestions n server (ReadQuestion server q) else q)"

fun ReadQuestionsForAdditionalRecords :: "nat \<Rightarrow> BonjourServer \<Rightarrow> QuestionParser \<Rightarrow> QuestionParser" where
  "ReadQuestionsForAdditionalRecords 0 server q = q"
| "ReadQuestionsForAdditionalRecords (Suc n) server q =
     (if valid q \<and> \<not> aborted q
      then ReadQuestionsForAdditionalRecords n server (ReadQuestionForAdditionalRecords server q)
      else q)"

definition EmplaceAnswer :: "QuestionParser \<Rightarrow> QuestionParser" where
  "EmplaceAnswer q =
     (case Answer_new (id' (header q)) (writer q) of
        (a, w) \<Rightarrow> q\<lparr>answer := Some a, writer := w\<rparr>)"

definition CreateAnswer :: "BonjourServer \<Rightarrow> QuestionParser \<Rightarrow> QuestionParser" where
  "CreateAnswer server q0 =
     (let q1 = ReadHeader q0
      in if \<not> IsValidQuestion q1 then q1
         else
           (let q2 = EmplaceAnswer q1;
                startOfQuestions = position (reader q2);
                q3 = ReadQuestions (unat (questionsCount (header q2))) server q2;
                q4 = q3\<lparr>reader := Rewind startOfQuestions (reader q3)\<rparr>;
                q5 = ReadQuestionsForAdditionalRecords (unat (questionsCount (header q4))) server q4
            in if \<not> valid q5 then q5\<lparr>answer := None\<rparr> else q5))"

text \<open>The constructor of the dry run, with the parser's own counting writer.\<close>

definition QuestionParser_counting :: "BonjourServer \<Rightarrow> StreamReader \<Rightarrow> QuestionParser" where
  "QuestionParser_counting server r =
     (let q = CreateAnswer server (QuestionParser_members r (CountingStreamWriter 0))
      in q\<lparr>reader := Rewind 0 (reader q)\<rparr>)"

text \<open>The constructor of the real pass, with the writer that was granted.\<close>

definition QuestionParser_writing :: "BonjourServer \<Rightarrow> StreamReader \<Rightarrow> StreamWriter \<Rightarrow> QuestionParser" where
  "QuestionParser_writing server r w =
     (let q = CreateAnswer server (QuestionParser_members r w);
          q' = (if answer q \<noteq> None then on_answer Finish q else q)
      in q'\<lparr>reader := Rewind 0 (reader q')\<rparr>)"

definition HasAnswer :: "QuestionParser \<Rightarrow> bool" where
  "HasAnswer q = (case answer q of None \<Rightarrow> False | Some a \<Rightarrow> Answers a \<noteq> 0)"

section \<open>The responder\<close>

text \<open>
  The responder's state is the retained reader. What it asks of the datagram exchange is
  kept as the list of the calls of \<^verbatim>\<open>RequestSendStream\<close>, each with the size asked for and
  the destination. \<^verbatim>\<open>DataReceived\<close> does not look at \<open>aborted\<close>: the parser never reaches
  \<^verbatim>\<open>std::abort()\<close> (\<open>never_aborts\<close>).
\<close>

record BonjourServerState =
  waitingReader :: "StreamReader option"
  requestedSendStreams :: "(nat \<times> UdpSocket) list"

definition RequestSendStream :: "QuestionParser \<Rightarrow> BonjourServerState \<Rightarrow> BonjourServerState" where
  "RequestSendStream question st =
     st\<lparr>requestedSendStreams := requestedSendStreams st
          @ [(Processed (writer question), MakeUdpSocket mdnsMulticastAddress mdnsPort)]\<rparr>"

definition DataReceived :: "BonjourServer \<Rightarrow> BonjourServerState \<Rightarrow> StreamReader \<Rightarrow> UdpSocket \<Rightarrow> BonjourServerState" where
  "DataReceived server st r sender =
     (if GetPort sender \<noteq> mdnsPort then st
      else if waitingReader st \<noteq> None then st
      else
        (let question = QuestionParser_counting server r;
             st1 = st\<lparr>waitingReader := Some (reader question)\<rparr>
         in if HasAnswer question then RequestSendStream question st1
            else st1\<lparr>waitingReader := None\<rparr>))"

text \<open>
  \<^verbatim>\<open>SendStreamAvailable\<close> asserts that a reader is retained: without one there is no
  result. Otherwise the result is the new state and the writer as it is handed back to
  the transport, which sends it.
\<close>

definition SendStreamAvailable :: "BonjourServer \<Rightarrow> BonjourServerState \<Rightarrow> StreamWriter \<Rightarrow> (BonjourServerState \<times> StreamWriter) option" where
  "SendStreamAvailable server st w =
     (case waitingReader st of
        None \<Rightarrow> None
      | Some r \<Rightarrow>
          (let question = QuestionParser_writing server r w
           in Some (st\<lparr>waitingReader := None\<rparr>, writer question)))"

section \<open>Notions used in the statements\<close>

text \<open>
  What \<^verbatim>\<open>stream >> header\<close> delivers from a reader: nothing when fewer than twelve bytes
  are left, else the header.
\<close>

definition HeaderOf :: "StreamReader \<Rightarrow> DnsRecordHeader option" where
  "HeaderOf r =
     (case Extract 12 r of
        (None, r') \<Rightarrow> None
      | (Some bs, r') \<Rightarrow> Some (ParseHeader bs))"

text \<open>
  The headers that section 4.3 rejects: the header failed to parse, or its opcode is not
  QUERY, or its response bit is set, or one of its last three counts is not zero.
\<close>

definition HeaderRejected :: "DnsRecordHeader option \<Rightarrow> bool" where
  "HeaderRejected ho =
     (case ho of
        None \<Rightarrow> True
      | Some h \<Rightarrow>
          flags h AND flagsOpcodeMask \<noteq> flagsOpcodeQuery \<or> flags h AND flagsResponse \<noteq> flagsQuery
          \<or> hdrAnswersCount h \<noteq> 0 \<or> hdrNameServersCount h \<noteq> 0
          \<or> hdrAdditionalRecordsCount h \<noteq> 0)"

text \<open>The counting writer that has seen as many bytes as a writer holds.\<close>

definition counting :: "StreamWriter \<Rightarrow> StreamWriter" where
  "counting w = CountingStreamWriter (Processed w)"

definition counting_view :: "QuestionParser \<Rightarrow> QuestionParser" where
  "counting_view q = q\<lparr>writer := counting (writer q)\<rparr>"

definition commutes :: "(Answer \<times> StreamWriter \<Rightarrow> Answer \<times> StreamWriter) \<Rightarrow> bool" where
  "commutes f = (\<forall>a w. f (a, counting w) = (fst (f (a, w)), counting (snd (f (a, w)))))"

text \<open>A writer to which bytes were appended, and nothing else done.\<close>

definition appended :: "StreamWriter \<Rightarrow> StreamWriter \<Rightarrow> bool" where
  "appended w w' = (\<exists>bs. w' = Insert bs w)"

definition appends :: "(Answer \<times> StreamWriter \<Rightarrow> Answer \<times> StreamWriter) \<Rightarrow> bool" where
  "appends f = (\<forall>a w. appended w (snd (f (a, w))))"

text \<open>
  An operation of the builder that leaves the query id, the start marker and the
  name-servers count alone, and what a parser's builder has of them.
\<close>

definition keeps :: "(Answer \<times> StreamWriter \<Rightarrow> Answer \<times> StreamWriter) \<Rightarrow> bool" where
  "keeps f = (\<forall>a w. queryId (fst (f (a, w))) = queryId a \<and> startMarker (fst (f (a, w))) = startMarker a
                \<and> nameServersCount (fst (f (a, w))) = nameServersCount a)"

definition AnswerIdentity :: "QuestionParser \<Rightarrow> (uint16 \<times> nat \<times> uint16) option" where
  "AnswerIdentity q = map_option (\<lambda>a. (queryId a, startMarker a, nameServersCount a)) (answer q)"

text \<open>
  A resource record as it lies in a response: the owner name, type, class, time to live
  of sixty seconds, the length of the resource data and the resource data.
\<close>

definition Record :: "BoundedConstString list \<Rightarrow> uint16 \<Rightarrow> byte list \<Rightarrow> byte list" where
  "Record owner t rdata =
     StreamHostname owner
     @ StreamPayload \<lparr>payload_type = t, payload_class = dnsClassIn, ttl = 60,
                      resourceDataLength = of_nat (length rdata)\<rparr>
     @ rdata"

text \<open>
  The test that \<^verbatim>\<open>ReadQuestion\<close> makes of the question at the reader's position, after
  \<^verbatim>\<open>ReadHostname\<close> and \<^verbatim>\<open>stream >> footer\<close>: the stream has failed, or the footer's type is
  none of the five or its class is not Internet.
\<close>

definition QuestionFails :: "QuestionParser \<Rightarrow> bool" where
  "QuestionFails q =
     (failed (ReadFooter (ReadHostname q)) \<or> \<not> IsFooterValid (ReadFooter (ReadHostname q)))"

text \<open>
  The parser of the dry run after \<open>k\<close> rounds of the first loop of \<^verbatim>\<open>CreateAnswer\<close>, and
  after the whole first loop, the rewinding and \<open>k\<close> rounds of the second loop.
\<close>

definition FirstSubPass :: "nat \<Rightarrow> BonjourServer \<Rightarrow> StreamReader \<Rightarrow> QuestionParser" where
  "FirstSubPass k server r =
     ReadQuestions k server
       (EmplaceAnswer (ReadHeader (QuestionParser_members r (CountingStreamWriter 0))))"

definition SecondSubPass :: "nat \<Rightarrow> BonjourServer \<Rightarrow> StreamReader \<Rightarrow> QuestionParser" where
  "SecondSubPass k server r =
     (let q2 = EmplaceAnswer (ReadHeader (QuestionParser_members r (CountingStreamWriter 0)));
          q3 = ReadQuestions (unat (questionsCount (header q2))) server q2
      in ReadQuestionsForAdditionalRecords k server
           (q3\<lparr>reader := Rewind (position (reader q2)) (reader q3)\<rparr>))"

text \<open>A name that the decoder rejects.\<close>

definition NameMalformed :: "StreamReader \<Rightarrow> bool" where
  "NameMalformed r =
     (case Labels (contents r) (position r) (drop (position r) (contents r)) of
        None \<Rightarrow> True
      | Some (ls, e) \<Rightarrow> 255 < StreamedSize ls)"

text \<open>Two parsers whose streams are at the same place of the same datagram.\<close>

definition same_input :: "QuestionParser \<Rightarrow> QuestionParser \<Rightarrow> bool" where
  "same_input p p' = (reader p = reader p' \<and> failed p = failed p')"

text \<open>
  The reader behind an accepted header, where the first question starts, and the parser
  at that place: the header read, the builder emplaced.
\<close>

definition AfterHeader :: "StreamReader \<Rightarrow> StreamReader" where
  "AfterHeader r = r\<lparr>position := position r + 12\<rparr>"

definition QuestionStart :: "StreamReader \<Rightarrow> DnsRecordHeader \<Rightarrow> StreamWriter \<Rightarrow> QuestionParser" where
  "QuestionStart r h w =
     EmplaceAnswer ((QuestionParser_members r w)\<lparr>reader := AfterHeader r, header := h\<rparr>)"

text \<open>
  The address records that the responder has, A before AAAA, and their number.
\<close>

definition AddressRecords :: "BonjourServer \<Rightarrow> byte list" where
  "AddressRecords server =
     (case ipv4Address server of
        None \<Rightarrow> []
      | Some address \<Rightarrow> Record [instance' server, local_label] dnsTypeA (IPv4Bytes address))
     @ (case ipv6Address server of
          None \<Rightarrow> []
        | Some address \<Rightarrow> Record [instance' server, local_label] dnsTypeAAAA (IPv6Bytes address))"

definition AddressCount :: "BonjourServer \<Rightarrow> uint16" where
  "AddressCount server =
     (case ipv4Address server of None \<Rightarrow> 0 | Some address \<Rightarrow> 1)
     + (case ipv6Address server of None \<Rightarrow> 0 | Some address \<Rightarrow> 1)"

section \<open>A responder and some datagrams\<close>

definition exampleServer :: BonjourServer where
  "exampleServer =
     \<lparr>instance' = chars ''dev'', serviceName = chars ''_http'', type' = chars ''_tcp'',
      ipv4Address = Some (IPv4Address 192 168 1 10), ipv6Address = None, port = 80,
      text' = [chars ''a=b'']\<rparr>"

definition idle :: BonjourServerState where
  "idle = \<lparr>waitingReader = None, requestedSendStreams = []\<rparr>"

definition exampleSender :: UdpSocket where
  "exampleSender = Udpv4 (IPv4Address 192 168 1 20) 5353"

text \<open>A query for the A record of \<^verbatim>\<open>dev.local\<close>, and the same datagram with the response bit set.\<close>

definition exampleQueryA :: StreamReader where
  "exampleQueryA =
     \<lparr>contents = [0x12, 0x34, 0, 0, 0, 1, 0, 0, 0, 0, 0, 0]
        @ [3, 0x64, 0x65, 0x76, 5, 0x6C, 0x6F, 0x63, 0x61, 0x6C, 0] @ [0, 1, 0, 1],
      position = 0\<rparr>"

definition exampleResponse :: StreamReader where
  "exampleResponse =
     \<lparr>contents = [0x12, 0x34, 0x80, 0, 0, 1, 0, 0, 0, 0, 0, 0]
        @ [3, 0x64, 0x65, 0x76, 5, 0x6C, 0x6F, 0x63, 0x61, 0x6C, 0] @ [0, 1, 0, 1],
      position = 0\<rparr>"


text \<open>
  Two questions: the A record of \<^verbatim>\<open>dev.local\<close>, then the same name with the unsupported
  type 2.
\<close>

definition exampleTwoQuestions :: StreamReader where
  "exampleTwoQuestions =
     \<lparr>contents = [0x12, 0x34, 0, 0, 0, 2, 0, 0, 0, 0, 0, 0]
        @ [3, 0x64, 0x65, 0x76, 5, 0x6C, 0x6F, 0x63, 0x61, 0x6C, 0] @ [0, 1, 0, 1]
        @ [3, 0x64, 0x65, 0x76, 5, 0x6C, 0x6F, 0x63, 0x61, 0x6C, 0] @ [0, 2, 0, 1],
      position = 0\<rparr>"

text \<open>
  The responder without an IPv4 address, a query for the PTR record of the full instance
  name \<^verbatim>\<open>dev._http._tcp.local\<close> and one for the PTR record of the service name
  \<^verbatim>\<open>_http._tcp.local\<close>.
\<close>

definition exampleServerWithoutAddress :: BonjourServer where
  "exampleServerWithoutAddress = exampleServer\<lparr>ipv4Address := None\<rparr>"

definition exampleQueryPtrInstance :: StreamReader where
  "exampleQueryPtrInstance =
     \<lparr>contents = [0x12, 0x34, 0, 0, 0, 1, 0, 0, 0, 0, 0, 0]
        @ [3, 0x64, 0x65, 0x76, 5, 0x5F, 0x68, 0x74, 0x74, 0x70, 4, 0x5F, 0x74, 0x63, 0x70,
           5, 0x6C, 0x6F, 0x63, 0x61, 0x6C, 0]
        @ [0, 12, 0, 1],
      position = 0\<rparr>"

definition exampleQueryPtrService :: StreamReader where
  "exampleQueryPtrService =
     \<lparr>contents = [0x12, 0x34, 0, 0, 0, 1, 0, 0, 0, 0, 0, 0]
        @ [5, 0x5F, 0x68, 0x74, 0x74, 0x70, 4, 0x5F, 0x74, 0x63, 0x70,
           5, 0x6C, 0x6F, 0x63, 0x61, 0x6C, 0]
        @ [0, 12, 0, 1],
      position = 0\<rparr>"

section \<open>The dry run and the real pass\<close>


lemma HostNameIsLoop_iff: "HostNameIsLoop parts components \<longleftrightarrow> parts = components"
  by (induction parts components rule: HostNameIsLoop.induct) auto

lemma Insert_append: "Insert (a @ b) w = Insert b (Insert a w)"
  by (cases w) simp_all

lemma Insert_Nil: "Insert [] w = w"
  by (cases w) simp_all

lemma Processed_Insert: "Processed (Insert bs w) = Processed w + length bs"
  by (cases w) simp_all

lemma ConstructSaveMarker_Processed: "ConstructSaveMarker w = Processed w"
  by (cases w) simp_all

lemma counting_Insert: "counting (Insert bs w) = Insert bs (counting w)"
  by (cases w) (simp_all add: counting_def)

lemma commutes_AddA: "commutes (AddA server n)"
  by (simp add: commutes_def AddA_def counting_Insert split: option.splits)
lemma commutes_AddAaaa: "commutes (AddAaaa server n)"
  by (simp add: commutes_def AddAaaa_def counting_Insert split: option.splits)
lemma commutes_AddPtr: "commutes (AddPtr server n)"
  by (simp add: commutes_def AddPtr_def counting_Insert Let_def)
lemma commutes_AddSrv: "commutes (AddSrv server n)"
  by (simp add: commutes_def AddSrv_def counting_Insert Let_def)
lemma commutes_AddTxt: "commutes (AddTxt server n)"
  by (simp add: commutes_def AddTxt_def counting_Insert Let_def)

lemma commutesD: "commutes f \<Longrightarrow> f (a, counting w) = (fst (f (a, w)), counting (snd (f (a, w))))"
  by (simp add: commutes_def)

lemma commutes_ops:
  "commutes (AddAAnswer server)" "commutes (AddAaaaAnswer server)" "commutes (AddPtrAnswer server)"
  "commutes (AddSrvAnswer server)" "commutes (AddTxtAnswer server)"
  "commutes (AddAAdditional server)" "commutes (AddAaaaAdditional server)"
  "commutes (AddSrvAdditional server)" "commutes (AddTxtAdditional server)"
  unfolding commutes_def AddAAnswer_def AddAaaaAnswer_def AddPtrAnswer_def AddSrvAnswer_def AddTxtAnswer_def
    AddAAdditional_def AddAaaaAdditional_def AddSrvAdditional_def AddTxtAdditional_def
  by (simp_all add: commutesD[OF commutes_AddA] commutesD[OF commutes_AddAaaa] commutesD[OF commutes_AddPtr]
      commutesD[OF commutes_AddSrv] commutesD[OF commutes_AddTxt])

lemma on_answer_view: "commutes f \<Longrightarrow> counting_view (on_answer f q) = on_answer f (counting_view q)"
  by (auto simp: on_answer_def counting_view_def commutes_def split: option.splits prod.splits)

lemma view_ReadHostname: "counting_view (ReadHostname q) = ReadHostname (counting_view q)"
  by (simp add: ReadHostname_def counting_view_def split: prod.splits)

lemma view_ReadFooter: "counting_view (ReadFooter q) = ReadFooter (counting_view q)"
  by (simp add: ReadFooter_def counting_view_def split: prod.splits option.splits)

lemma view_fields [simp]:
  "failed (counting_view q) = failed q" "valid (counting_view q) = valid q"
  "aborted (counting_view q) = aborted q" "footer (counting_view q) = footer q"
  "header (counting_view q) = header q" "reader (counting_view q) = reader q"
  "reconstructedHostname (counting_view q) = reconstructedHostname q"
  "answer (counting_view q) = answer q"
  by (simp_all add: counting_view_def)

lemma view_preds [simp]:
  "IsFooterValid (counting_view q) = IsFooterValid q"
  "IsQueryForMe server (counting_view q) = IsQueryForMe server q"
  "IsValidQuestion (counting_view q) = IsValidQuestion q"
  by (simp_all add: IsFooterValid_def IsQueryForMe_def IsValidQuestion_def MyShortInstanceName_def
      MyFullInstanceName_def MyServiceName_def HostNameIs_def)

lemma view_upd:
  "counting_view (q\<lparr>valid := v\<rparr>) = (counting_view q)\<lparr>valid := v\<rparr>"
  "counting_view (q\<lparr>aborted := b\<rparr>) = (counting_view q)\<lparr>aborted := b\<rparr>"
  "counting_view (q\<lparr>answer := x\<rparr>) = (counting_view q)\<lparr>answer := x\<rparr>"
  "counting_view (q\<lparr>reader := rd\<rparr>) = (counting_view q)\<lparr>reader := rd\<rparr>"
  by (simp_all add: counting_view_def)

lemma view_ReadQuestion: "counting_view (ReadQuestion server q) = ReadQuestion server (counting_view q)"
  by (simp add: ReadQuestion_def Let_def view_ReadHostname[symmetric] view_ReadFooter[symmetric]
      on_answer_view commutes_ops view_upd)

lemma view_ReadQuestionForAdditionalRecords:
  "counting_view (ReadQuestionForAdditionalRecords server q) = ReadQuestionForAdditionalRecords server (counting_view q)"
  by (simp add: ReadQuestionForAdditionalRecords_def Let_def view_ReadHostname[symmetric] view_ReadFooter[symmetric]
      on_answer_view commutes_ops view_upd)

lemma view_ReadQuestions: "counting_view (ReadQuestions n server q) = ReadQuestions n server (counting_view q)"
  by (induction n arbitrary: q) (simp_all add: view_ReadQuestion)

lemma view_ReadQuestionsForAdditionalRecords:
  "counting_view (ReadQuestionsForAdditionalRecords n server q) = ReadQuestionsForAdditionalRecords n server (counting_view q)"
  by (induction n arbitrary: q) (simp_all add: view_ReadQuestionForAdditionalRecords)

lemma view_ReadHeader: "counting_view (ReadHeader q) = ReadHeader (counting_view q)"
  by (simp add: ReadHeader_def counting_view_def split: prod.splits option.splits)

lemma view_EmplaceAnswer: "counting_view (EmplaceAnswer q) = EmplaceAnswer (counting_view q)"
  by (simp add: EmplaceAnswer_def Answer_new_def counting_view_def counting_Insert ConstructSaveMarker_Processed counting_def Processed_Insert)

lemma view_CreateAnswer: "counting_view (CreateAnswer server q) = CreateAnswer server (counting_view q)"
  by (simp add: CreateAnswer_def Let_def view_ReadHeader[symmetric] view_EmplaceAnswer[symmetric]
      view_ReadQuestions[symmetric] view_ReadQuestionsForAdditionalRecords[symmetric] view_upd[symmetric])


section \<open>Writing only appends\<close>


lemma appended_refl: "appended w w"
  unfolding appended_def by (rule exI[of _ "[]"]) (simp add: Insert_Nil)

lemma appended_trans: "appended w w' \<Longrightarrow> appended w' w'' \<Longrightarrow> appended w w''"
  unfolding appended_def by (auto simp: Insert_append[symmetric])

lemma appended_Insert: "appended w (Insert bs w)"
  unfolding appended_def by blast

lemma appended_Insert_trans: "appended w w' \<Longrightarrow> appended w (Insert bs w')"
  by (rule appended_trans[OF _ appended_Insert])

lemma appends_Add:
  "appends (AddA server n)" "appends (AddAaaa server n)" "appends (AddPtr server n)"
  "appends (AddSrv server n)" "appends (AddTxt server n)"
  by (simp_all add: appends_def AddA_def AddAaaa_def AddPtr_def AddSrv_def AddTxt_def Let_def
      appended_refl appended_Insert appended_Insert_trans split: option.splits)

lemma appendsD: "appends f \<Longrightarrow> appended w (snd (f (a, w)))"
  by (simp add: appends_def)

lemma appends_ops:
  "appends (AddAAnswer server)" "appends (AddAaaaAnswer server)" "appends (AddPtrAnswer server)"
  "appends (AddSrvAnswer server)" "appends (AddTxtAnswer server)"
  "appends (AddAAdditional server)" "appends (AddAaaaAdditional server)"
  "appends (AddSrvAdditional server)" "appends (AddTxtAdditional server)"
  unfolding AddAAnswer_def AddAaaaAnswer_def AddPtrAnswer_def AddSrvAnswer_def AddTxtAnswer_def
    AddAAdditional_def AddAaaaAdditional_def AddSrvAdditional_def AddTxtAdditional_def
  using appends_Add[of server]
  by (simp_all add: appends_def appended_refl)

lemma on_answer_appended: "appends f \<Longrightarrow> appended (writer q) (writer (on_answer f q))"
proof (cases "answer q")
  case None
  then show ?thesis by (simp add: on_answer_def appended_refl)
next
  case (Some a)
  assume "appends f"
  then have "appended (writer q) (snd (f (a, writer q)))" by (rule appendsD)
  then show ?thesis using Some by (cases "f (a, writer q)") (simp add: on_answer_def)
qed

lemma writer_ReadFooter_ReadHostname [simp]: "writer (ReadFooter (ReadHostname q)) = writer q"
  by (simp add: ReadFooter_def ReadHostname_def split: prod.splits option.splits)

lemma ReadQuestion_appended: "appended (writer q) (writer (ReadQuestion server q))"
proof -
  have *: "\<And>f. appends f \<Longrightarrow> appended (writer q) (writer (on_answer f (ReadFooter (ReadHostname q))))"
    using on_answer_appended[of _ "ReadFooter (ReadHostname q)"] by simp
  show ?thesis
    by (simp add: ReadQuestion_def Let_def * appends_ops appended_refl)
qed

lemma ReadQuestionForAdditionalRecords_appended:
  "appended (writer q) (writer (ReadQuestionForAdditionalRecords server q))"
proof -
  let ?q = "ReadFooter (ReadHostname q)"
  have 1: "\<And>f q'. appends f \<Longrightarrow> appended (writer q) (writer q') \<Longrightarrow> appended (writer q) (writer (on_answer f q'))"
    by (rule appended_trans[OF _ on_answer_appended])
  have 0: "appended (writer q) (writer ?q)" by (simp add: appended_refl)
  show ?thesis
    by (simp add: ReadQuestionForAdditionalRecords_def Let_def 1 0 appends_ops appended_refl del: writer_ReadFooter_ReadHostname)
qed

lemma ReadQuestions_appended: "appended (writer q) (writer (ReadQuestions n server q))"
proof (induction n arbitrary: q)
  case 0
  show ?case by (simp add: appended_refl)
next
  case (Suc n)
  show ?case
    using appended_trans[OF ReadQuestion_appended Suc.IH]
    by (simp add: appended_refl)
qed

lemma ReadQuestionsForAdditionalRecords_appended:
  "appended (writer q) (writer (ReadQuestionsForAdditionalRecords n server q))"
proof (induction n arbitrary: q)
  case 0
  show ?case by (simp add: appended_refl)
next
  case (Suc n)
  show ?case
    using appended_trans[OF ReadQuestionForAdditionalRecords_appended Suc.IH]
    by (simp add: appended_refl)
qed

lemma writer_ReadHeader [simp]: "writer (ReadHeader q) = writer q"
  by (simp add: ReadHeader_def split: prod.splits option.splits)

lemma header_on_answer [simp]: "header (on_answer f q) = header q"
  by (simp add: on_answer_def split: option.splits prod.splits)

lemma header_ReadQuestion [simp]: "header (ReadQuestion server q) = header q"
  by (simp add: ReadQuestion_def Let_def ReadFooter_def ReadHostname_def split: prod.splits option.splits)

lemma header_ReadQuestions [simp]: "header (ReadQuestions n server q) = header q"
  by (induction n arbitrary: q) simp_all

lemma CreateAnswer_writer:
  assumes "IsValidQuestion (ReadHeader q)"
  shows "\<exists>records. writer (CreateAnswer server q) =
           Insert (StreamHeader (ProvisionalHeader (id' (header (ReadHeader q)))) @ records) (writer q)"
proof -
  let ?q2 = "EmplaceAnswer (ReadHeader q)"
  let ?n = "unat (questionsCount (header ?q2))"
  let ?q3 = "ReadQuestions ?n server ?q2"
  let ?q4 = "?q3\<lparr>reader := Rewind (position (reader ?q2)) (reader ?q3)\<rparr>"
  let ?q5 = "ReadQuestionsForAdditionalRecords ?n server ?q4"
  have w2: "writer ?q2 = Insert (StreamHeader (ProvisionalHeader (id' (header (ReadHeader q))))) (writer q)"
    by (simp add: EmplaceAnswer_def Answer_new_def)
  have "appended (writer ?q2) (writer ?q3)" by (rule ReadQuestions_appended)
  moreover have "appended (writer ?q4) (writer ?q5)" by (rule ReadQuestionsForAdditionalRecords_appended)
  moreover have "writer ?q4 = writer ?q3" by simp
  ultimately have "appended (writer ?q2) (writer ?q5)" using appended_trans by simp
  then obtain records where r: "writer ?q5 = Insert records (writer ?q2)"
    by (auto simp: appended_def)
  have "writer (CreateAnswer server q) = writer ?q5"
    using assms by (simp add: CreateAnswer_def Let_def)
  then have "writer (CreateAnswer server q) =
      Insert (StreamHeader (ProvisionalHeader (id' (header (ReadHeader q)))) @ records) (writer q)"
    using r w2 by (simp add: Insert_append)
  then show ?thesis by (rule exI)
qed


section \<open>The reader keeps its datagram\<close>


lemma contents_Extract: "contents (snd (Extract n r)) = contents r"
  by (simp add: Extract_def)

lemma contents_DnsHostnamePartsStream: "contents (snd (DnsHostnamePartsStream r)) = contents r"
  by (simp add: DnsHostnamePartsStream_def split: option.splits prod.splits)

lemma contents_ReadHostname [simp]: "contents (reader (ReadHostname q)) = contents (reader q)"
  using contents_DnsHostnamePartsStream[of "reader q"]
  by (auto simp: ReadHostname_def split: prod.splits)

lemma contents_ReadFooter [simp]: "contents (reader (ReadFooter q)) = contents (reader q)"
  using contents_Extract[of 4 "reader q"]
  by (auto simp: ReadFooter_def split: prod.splits option.splits)

lemma contents_ReadHeader [simp]: "contents (reader (ReadHeader q)) = contents (reader q)"
  using contents_Extract[of 12 "reader q"]
  by (auto simp: ReadHeader_def split: prod.splits option.splits)

lemma reader_on_answer [simp]: "reader (on_answer f q) = reader q"
  by (simp add: on_answer_def split: option.splits prod.splits)

lemma reader_ReadQuestion: "reader (ReadQuestion server q) = reader (ReadFooter (ReadHostname q))"
  by (simp add: ReadQuestion_def Let_def)

lemma reader_ReadQuestionForAdditionalRecords:
  "reader (ReadQuestionForAdditionalRecords server q) = reader (ReadFooter (ReadHostname q))"
  by (simp add: ReadQuestionForAdditionalRecords_def Let_def)

lemma contents_ReadQuestions [simp]: "contents (reader (ReadQuestions n server q)) = contents (reader q)"
  by (induction n arbitrary: q) (simp_all add: reader_ReadQuestion)

lemma contents_ReadQuestionsForAdditionalRecords [simp]:
  "contents (reader (ReadQuestionsForAdditionalRecords n server q)) = contents (reader q)"
  by (induction n arbitrary: q) (simp_all add: reader_ReadQuestionForAdditionalRecords)

lemma reader_EmplaceAnswer [simp]: "reader (EmplaceAnswer q) = reader q"
  by (simp add: EmplaceAnswer_def split: prod.splits)

lemma contents_CreateAnswer [simp]: "contents (reader (CreateAnswer server q)) = contents (reader q)"
  by (simp add: CreateAnswer_def Let_def Rewind_def)

lemma Rewind_eq: "contents r' = contents r \<Longrightarrow> Rewind m r' = r\<lparr>position := m\<rparr>"
  by (simp add: Rewind_def)

lemma reader_QuestionParser_counting: "reader (QuestionParser_counting server r) = r\<lparr>position := 0\<rparr>"
  by (simp add: QuestionParser_counting_def Let_def Rewind_eq QuestionParser_members_def)

lemma ReadHeader_HeaderOf_None:
  "HeaderOf (reader q) = None \<Longrightarrow> failed (ReadHeader q)"
  by (simp add: HeaderOf_def ReadHeader_def split: prod.splits option.splits)

lemma ReadHeader_HeaderOf_Some:
  "HeaderOf (reader q) = Some h \<Longrightarrow> header (ReadHeader q) = h \<and> failed (ReadHeader q) = failed q"
  by (simp add: HeaderOf_def ReadHeader_def split: prod.splits option.splits)

lemma rejected_not_valid:
  assumes "HeaderRejected (HeaderOf (reader q))"
  shows "\<not> IsValidQuestion (ReadHeader q)"
proof (cases "HeaderOf (reader q)")
  case None
  then show ?thesis using ReadHeader_HeaderOf_None[of q] by (simp add: IsValidQuestion_def)
next
  case (Some h)
  then show ?thesis using assms ReadHeader_HeaderOf_Some[of q h]
    by (auto simp: IsValidQuestion_def HeaderRejected_def)
qed

lemma answer_ReadHeader [simp]: "answer (ReadHeader q) = answer q"
  by (simp add: ReadHeader_def split: prod.splits option.splits)

lemma not_valid_no_answer:
  "\<not> IsValidQuestion (ReadHeader (QuestionParser_members r w)) \<Longrightarrow>
     answer (CreateAnswer server (QuestionParser_members r w)) = None"
  by (simp add: CreateAnswer_def QuestionParser_members_def)

section \<open>The builder keeps its identity\<close>


lemma fst_Add [simp]:
  "fst (AddA server n aw) = fst aw" "fst (AddAaaa server n aw) = fst aw" "fst (AddPtr server n aw) = fst aw"
  "fst (AddSrv server n aw) = fst aw" "fst (AddTxt server n aw) = fst aw"
  by (simp_all add: AddA_def AddAaaa_def AddPtr_def AddSrv_def AddTxt_def Let_def split: option.splits)

lemma keeps_ops:
  "keeps (AddAAnswer server)" "keeps (AddAaaaAnswer server)" "keeps (AddPtrAnswer server)"
  "keeps (AddSrvAnswer server)" "keeps (AddTxtAnswer server)"
  "keeps (AddAAdditional server)" "keeps (AddAaaaAdditional server)"
  "keeps (AddSrvAdditional server)" "keeps (AddTxtAdditional server)"
  by (simp_all add: keeps_def AddAAnswer_def AddAaaaAnswer_def AddPtrAnswer_def AddSrvAnswer_def AddTxtAnswer_def
    AddAAdditional_def AddAaaaAdditional_def AddSrvAdditional_def AddTxtAdditional_def)

lemma identity_on_answer: "keeps f \<Longrightarrow> AnswerIdentity (on_answer f q) = AnswerIdentity q"
proof (cases "answer q")
  case None
  then show ?thesis by (simp add: AnswerIdentity_def on_answer_def)
next
  case (Some a)
  assume "keeps f"
  then have "queryId (fst (f (a, writer q))) = queryId a
      \<and> startMarker (fst (f (a, writer q))) = startMarker a
      \<and> nameServersCount (fst (f (a, writer q))) = nameServersCount a"
    by (simp add: keeps_def)
  then show ?thesis using Some
    by (cases "f (a, writer q)") (simp add: AnswerIdentity_def on_answer_def)
qed

lemma answer_ReadFooter_ReadHostname [simp]: "answer (ReadFooter (ReadHostname q)) = answer q"
  by (simp add: ReadFooter_def ReadHostname_def split: prod.splits option.splits)

lemma identity_upd [simp]:
  "AnswerIdentity (q\<lparr>valid := v\<rparr>) = AnswerIdentity q"
  "AnswerIdentity (q\<lparr>aborted := b\<rparr>) = AnswerIdentity q"
  "AnswerIdentity (q\<lparr>reader := rd\<rparr>) = AnswerIdentity q"
  "AnswerIdentity (ReadFooter (ReadHostname q)) = AnswerIdentity q"
  by (simp_all add: AnswerIdentity_def)

lemma identity_ReadQuestion: "AnswerIdentity (ReadQuestion server q) = AnswerIdentity q"
  by (simp add: ReadQuestion_def Let_def identity_on_answer keeps_ops)

lemma identity_ReadQuestionForAdditionalRecords:
  "AnswerIdentity (ReadQuestionForAdditionalRecords server q) = AnswerIdentity q"
  by (simp add: ReadQuestionForAdditionalRecords_def Let_def identity_on_answer keeps_ops)

lemma identity_ReadQuestions: "AnswerIdentity (ReadQuestions n server q) = AnswerIdentity q"
  by (induction n arbitrary: q) (simp_all add: identity_ReadQuestion)

lemma identity_ReadQuestionsForAdditionalRecords:
  "AnswerIdentity (ReadQuestionsForAdditionalRecords n server q) = AnswerIdentity q"
  by (induction n arbitrary: q) (simp_all add: identity_ReadQuestionForAdditionalRecords)

lemma CreateAnswer_identity:
  assumes "answer (CreateAnswer server q) = Some a" and "answer q = None"
  shows "queryId a = id' (header (ReadHeader q)) \<and> startMarker a = Processed (writer q)
         \<and> nameServersCount a = 0"
proof -
  let ?q2 = "EmplaceAnswer (ReadHeader q)"
  let ?n = "unat (questionsCount (header ?q2))"
  let ?q3 = "ReadQuestions ?n server ?q2"
  let ?q4 = "?q3\<lparr>reader := Rewind (position (reader ?q2)) (reader ?q3)\<rparr>"
  let ?q5 = "ReadQuestionsForAdditionalRecords ?n server ?q4"
  have v: "IsValidQuestion (ReadHeader q)"
    using assms by (auto simp: CreateAnswer_def Let_def split: if_splits)
  have "answer ?q5 = Some a"
    using assms v by (simp add: CreateAnswer_def Let_def split: if_splits)
  then have "AnswerIdentity ?q5 = Some (queryId a, startMarker a, nameServersCount a)"
    by (simp add: AnswerIdentity_def)
  moreover have "AnswerIdentity ?q5 = AnswerIdentity ?q2"
    by (simp add: identity_ReadQuestionsForAdditionalRecords identity_ReadQuestions)
  moreover have "AnswerIdentity ?q2 = Some (id' (header (ReadHeader q)), Processed (writer q), 0)"
    by (simp add: AnswerIdentity_def EmplaceAnswer_def Answer_new_def ConstructSaveMarker_Processed)
  ultimately show ?thesis by simp
qed

lemma length_BigEndian16 [simp]: "length (BigEndian16 v) = 2"
  by (simp add: BigEndian16_def)

lemma length_StreamHeader [simp]: "length (StreamHeader h) = 12"
  by (simp add: StreamHeader_def)

lemma accepted_valid:
  assumes "HeaderOf r = Some h" "\<not> HeaderRejected (Some h)"
  shows "IsValidQuestion (ReadHeader (QuestionParser_members r w))"
    and "header (ReadHeader (QuestionParser_members r w)) = h"
proof -
  have "HeaderOf (reader (QuestionParser_members r w)) = Some h"
    using assms(1) by (simp add: QuestionParser_members_def)
  from ReadHeader_HeaderOf_Some[OF this]
  have 1: "header (ReadHeader (QuestionParser_members r w)) = h"
    and 2: "\<not> failed (ReadHeader (QuestionParser_members r w))"
    by (simp_all add: QuestionParser_members_def)
  show "header (ReadHeader (QuestionParser_members r w)) = h" by (rule 1)
  show "IsValidQuestion (ReadHeader (QuestionParser_members r w))"
    using assms(2) 1 2 by (simp add: IsValidQuestion_def HeaderRejected_def)
qed


lemma BigEndian16_consts [simp]: "BigEndian16 flagsResponse = [0x80, 0]" "BigEndian16 0 = [0, 0]"
  by (simp_all add: BigEndian16_def flagsResponse_def)

lemma StreamHeader_Provisional:
  "StreamHeader (ProvisionalHeader qid) = BigEndian16 qid @ [0x80, 0, 0, 0, 0, 0, 0, 0, 0, 0]"
  by (simp add: StreamHeader_def ProvisionalHeader_def)

lemma writer_QuestionParser_writing:
  "writer (QuestionParser_writing server r w) =
     (case answer (CreateAnswer server (QuestionParser_members r w)) of
        None \<Rightarrow> writer (CreateAnswer server (QuestionParser_members r w))
      | Some a \<Rightarrow> snd (Finish (a, writer (CreateAnswer server (QuestionParser_members r w)))))"
  by (simp add: QuestionParser_writing_def Let_def on_answer_def split: option.splits prod.splits)

lemma counting_view_members: "counting_view (QuestionParser_members r w) = QuestionParser_members r (counting w)"
  by (simp add: counting_view_def QuestionParser_members_def)

lemma dry_is_view:
  "CreateAnswer server (QuestionParser_members r (CountingStreamWriter 0))
     = counting_view (CreateAnswer server (QuestionParser_members r (ByteOutputStreamWriter [])))"
  using view_CreateAnswer[of server "QuestionParser_members r (ByteOutputStreamWriter [])"]
  by (simp add: counting_view_members counting_def)

lemma Processed_Finish:
  assumes "answer (CreateAnswer server (QuestionParser_members r w)) = Some a"
  shows "Processed (snd (Finish (a, writer (CreateAnswer server (QuestionParser_members r w)))))
           = Processed (writer (CreateAnswer server (QuestionParser_members r w)))"
proof -
  let ?init = "QuestionParser_members r w"
  have v: "IsValidQuestion (ReadHeader ?init)"
    using assms by (auto simp: CreateAnswer_def Let_def QuestionParser_members_def split: if_splits)
  from CreateAnswer_writer[OF v, of server] obtain records
    where wr: "writer (CreateAnswer server ?init)
       = Insert (StreamHeader (ProvisionalHeader (id' (header (ReadHeader ?init)))) @ records) (writer ?init)"
    by blast
  have "startMarker a = Processed (writer ?init)"
    using CreateAnswer_identity[OF assms] by (simp add: QuestionParser_members_def)
  then show ?thesis
    unfolding wr by (cases w) (simp_all add: Finish_def QuestionParser_members_def)
qed

section \<open>The records\<close>


lemma length_StreamParts: "length (StreamParts ps) = PartsSize ps"
  by (induction ps) simp_all

lemma length_StreamHostname: "length (StreamHostname ps) = StreamedSize ps"
  by (simp add: StreamHostname_def StreamedSize_def length_StreamParts)

lemma length_IPv4Bytes [simp]: "length (IPv4Bytes a) = 4"
  by (cases a) simp

lemma length_IPv6Bytes [simp]: "length (IPv6Bytes a) = 16"
  by (cases a) simp

lemma AddA_Record:
  "snd (AddA server owner (a, w)) =
     (case ipv4Address server of
        None \<Rightarrow> w
      | Some address \<Rightarrow> Insert (Record owner dnsTypeA (IPv4Bytes address)) w)"
  by (simp add: AddA_def Record_def Insert_append split: option.splits)

lemma AddAaaa_Record:
  "snd (AddAaaa server owner (a, w)) =
     (case ipv6Address server of
        None \<Rightarrow> w
      | Some address \<Rightarrow> Insert (Record owner dnsTypeAAAA (IPv6Bytes address)) w)"
  by (simp add: AddAaaa_def Record_def Insert_append split: option.splits)

lemma AddPtr_Record:
  "snd (AddPtr server owner (a, w)) =
     Insert (Record owner dnsTypePtr
               (StreamHostname [instance' server, serviceName server, type' server, local_label])) w"
  by (simp add: AddPtr_def Record_def Insert_append Let_def length_StreamHostname)

lemma AddSrv_Record:
  "snd (AddSrv server owner (a, w)) =
     Insert (Record owner dnsTypeSrv
               (BigEndian16 0 @ BigEndian16 0 @ BigEndian16 (port server)
                @ StreamHostname [instance' server, local_label])) w"
  by (cases w) (simp_all add: AddSrv_def Record_def Let_def length_StreamHostname add.commute)

lemma AddTxt_Record:
  "snd (AddTxt server owner (a, w)) = Insert (Record owner dnsTypeTxt (StreamParts (text' server))) w"
  by (simp add: AddTxt_def Record_def Insert_append Let_def length_StreamParts StreamedSize_def)

section \<open>A failing question\<close>

lemma aborted_on_answer [simp]: "aborted (on_answer f q) = aborted q"
  by (simp add: on_answer_def split: option.splits prod.splits)

lemma valid_on_answer [simp]: "valid (on_answer f q) = valid q"
  by (simp add: on_answer_def split: option.splits prod.splits)

lemma failed_on_answer [simp]: "failed (on_answer f q) = failed q"
  by (simp add: on_answer_def split: option.splits prod.splits)

lemma scan_frame [simp]:
  "aborted (ReadFooter (ReadHostname q)) = aborted q"
  "valid (ReadFooter (ReadHostname q)) = valid q"
  by (simp_all add: ReadFooter_def ReadHostname_def split: prod.splits option.splits)

lemma IsQueryForMe_types:
  "IsQueryForMe server q \<Longrightarrow>
     footer_type (footer q) = dnsTypeA \<or> footer_type (footer q) = dnsTypeAAAA
     \<or> footer_type (footer q) = dnsTypePtr \<or> footer_type (footer q) = dnsTypeSrv
     \<or> footer_type (footer q) = dnsTypeTxt"
  by (auto simp: IsQueryForMe_def split: if_splits)

lemma aborted_ReadQuestion [simp]: "aborted (ReadQuestion server q) = aborted q"
  using IsQueryForMe_types[of server "ReadFooter (ReadHostname q)"]
  by (auto simp: ReadQuestion_def Let_def)

lemma aborted_ReadQuestions [simp]: "aborted (ReadQuestions n server q) = aborted q"
  by (induction n arbitrary: q) simp_all

lemma aborted_ReadQuestionForAdditionalRecords [simp]:
  "aborted (ReadQuestionForAdditionalRecords server q) = aborted q"
  by (simp add: ReadQuestionForAdditionalRecords_def Let_def)

lemma valid_ReadQuestionForAdditionalRecords [simp]:
  "valid (ReadQuestionForAdditionalRecords server q) = valid q"
  by (simp add: ReadQuestionForAdditionalRecords_def Let_def)

lemma failed_ReadQuestion: "failed (ReadQuestion server q) = failed (ReadFooter (ReadHostname q))"
  by (simp add: ReadQuestion_def Let_def)

lemma failed_ReadQuestionForAdditionalRecords:
  "failed (ReadQuestionForAdditionalRecords server q) = failed (ReadFooter (ReadHostname q))"
  by (simp add: ReadQuestionForAdditionalRecords_def Let_def)

lemma valid_ReadQuestion: "valid (ReadQuestion server q) = (valid q \<and> \<not> QuestionFails q)"
  by (auto simp: ReadQuestion_def Let_def QuestionFails_def)

lemma ReadQuestions_stopped: "\<not> valid q \<Longrightarrow> ReadQuestions n server q = q"
  by (cases n) simp_all

lemma ReadQuestionsForAdditionalRecords_stopped:
  "\<not> valid q \<Longrightarrow> ReadQuestionsForAdditionalRecords n server q = q"
  by (cases n) simp_all

lemma valid_ReadQuestions_antitone: "valid (ReadQuestions n server q) \<Longrightarrow> valid q"
  by (cases "valid q") (simp_all add: ReadQuestions_stopped)

lemma ReadQuestions_add:
  "ReadQuestions (k + m) server q = ReadQuestions m server (ReadQuestions k server q)"
proof (induction k arbitrary: q)
  case 0
  show ?case by simp
next
  case (Suc k)
  show ?case
  proof (cases "valid q \<and> \<not> aborted q")
    case True
    then show ?thesis using Suc by simp
  next
    case False
    then have "ReadQuestions m server q = q" by (cases m) auto
    then show ?thesis using False by auto
  qed
qed

lemma failing_question_invalidates:
  assumes "k < n" and "QuestionFails (ReadQuestions k server q)" and "\<not> aborted q"
  shows "\<not> valid (ReadQuestions n server q)"
proof -
  from assms(1) obtain m where n: "n = k + Suc m"
    by (auto dest: less_imp_Suc_add)
  define p where "p = ReadQuestions k server q"
  have na: "\<not> aborted p" unfolding p_def using assms(3) by simp
  have qf: "QuestionFails p" unfolding p_def by (rule assms(2))
  have e: "ReadQuestions n server q = ReadQuestions (Suc m) server p"
    unfolding n p_def by (rule ReadQuestions_add)
  have "\<not> valid (ReadQuestions (Suc m) server p)"
  proof (cases "valid p")
    case True
    have nv: "\<not> valid (ReadQuestion server p)"
      using qf by (simp only: valid_ReadQuestion) simp
    have "ReadQuestions (Suc m) server p = ReadQuestions m server (ReadQuestion server p)"
      using True na by simp
    also have "\<dots> = ReadQuestion server p"
      using nv by (rule ReadQuestions_stopped)
    finally show ?thesis using nv by simp
  next
    case False
    then have "ReadQuestions (Suc m) server p = p" by (rule ReadQuestions_stopped)
    then show ?thesis using False by simp
  qed
  then show ?thesis unfolding e .
qed

lemma IsFooterValid_footer: "footer p = footer p' \<Longrightarrow> IsFooterValid p = IsFooterValid p'"
  by (simp add: IsFooterValid_def)

lemma scan_same_input:
  assumes "same_input p p'"
  shows "same_input (ReadFooter (ReadHostname p)) (ReadFooter (ReadHostname p'))"
    and "\<not> failed (ReadFooter (ReadHostname p)) \<Longrightarrow>
           footer (ReadFooter (ReadHostname p)) = footer (ReadFooter (ReadHostname p'))"
  using assms
  by (auto simp: same_input_def ReadFooter_def ReadHostname_def split: prod.splits option.splits)

lemma QuestionFails_same_input: "same_input p p' \<Longrightarrow> QuestionFails p = QuestionFails p'"
  using scan_same_input[of p p'] IsFooterValid_footer[of "ReadFooter (ReadHostname p)" "ReadFooter (ReadHostname p')"]
  by (auto simp: QuestionFails_def same_input_def)

lemma step_same_input:
  "same_input p p' \<Longrightarrow> same_input (ReadQuestion server p) (ReadQuestionForAdditionalRecords server p')"
  using scan_same_input(1)[of p p']
  by (simp add: same_input_def reader_ReadQuestion reader_ReadQuestionForAdditionalRecords
      failed_ReadQuestion failed_ReadQuestionForAdditionalRecords)

lemma second_pass_follows_first:
  assumes "same_input p p'" and "valid p'" and "\<not> aborted p'" and "\<not> aborted p"
    and "valid (ReadQuestions n server p)" and "k \<le> n"
  shows "same_input (ReadQuestions k server p) (ReadQuestionsForAdditionalRecords k server p')"
  using assms
proof (induction k arbitrary: p p' n)
  case 0
  then show ?case by simp
next
  case (Suc k)
  obtain n' where n: "n = Suc n'" using Suc.prems(6) by (cases n) auto
  have vp: "valid p" using Suc.prems(5) by (rule valid_ReadQuestions_antitone)
  have "same_input (ReadQuestions k server (ReadQuestion server p))
          (ReadQuestionsForAdditionalRecords k server (ReadQuestionForAdditionalRecords server p'))"
  proof (rule Suc.IH)
    show "same_input (ReadQuestion server p) (ReadQuestionForAdditionalRecords server p')"
      using Suc.prems(1) by (rule step_same_input)
    show "valid (ReadQuestionForAdditionalRecords server p')" using Suc.prems(2) by simp
    show "\<not> aborted (ReadQuestionForAdditionalRecords server p')" using Suc.prems(3) by simp
    show "\<not> aborted (ReadQuestion server p)" using Suc.prems(4) by simp
    show "valid (ReadQuestions n' server (ReadQuestion server p))"
      using Suc.prems(5) vp Suc.prems(4) unfolding n by simp
    show "k \<le> n'" using Suc.prems(6) n by simp
  qed
  then show ?case using vp Suc.prems(2,3,4) by simp
qed

lemma malformed_name_fails: "NameMalformed (reader q) \<Longrightarrow> QuestionFails q"
  by (auto simp: NameMalformed_def QuestionFails_def ReadFooter_def ReadHostname_def
      DnsHostnamePartsStream_def Extract_def Available_def split: option.splits prod.splits if_splits)

lemma not_failed_while_valid:
  "valid (ReadQuestions n server q) \<Longrightarrow> \<not> failed q \<Longrightarrow> \<not> failed (ReadQuestions n server q)"
proof (induction n arbitrary: q)
  case 0
  then show ?case by simp
next
  case (Suc n)
  have vq: "valid q" using Suc.prems(1) by (rule valid_ReadQuestions_antitone)
  show ?case
  proof (cases "aborted q")
    case True
    then show ?thesis using Suc.prems(2) by simp
  next
    case False
    have e: "ReadQuestions (Suc n) server q = ReadQuestions n server (ReadQuestion server q)"
      using vq False by simp
    have v1: "valid (ReadQuestions n server (ReadQuestion server q))"
      using Suc.prems(1) unfolding e .
    then have "valid (ReadQuestion server q)" by (rule valid_ReadQuestions_antitone)
    then have "\<not> QuestionFails q" by (simp only: valid_ReadQuestion) simp
    then have "\<not> failed (ReadQuestion server q)"
      by (simp add: QuestionFails_def failed_ReadQuestion)
    with v1 have "\<not> failed (ReadQuestions n server (ReadQuestion server q))"
      by (rule Suc.IH)
    then show ?thesis unfolding e .
  qed
qed

lemma header_EmplaceAnswer [simp]: "header (EmplaceAnswer q) = header q"
  by (simp add: EmplaceAnswer_def split: prod.splits)

lemma EmplaceAnswer_flags [simp]:
  "failed (EmplaceAnswer q) = failed q" "valid (EmplaceAnswer q) = valid q"
  "aborted (EmplaceAnswer q) = aborted q"
  by (simp_all add: EmplaceAnswer_def split: prod.splits)

lemma ReadHeader_flags [simp]:
  "valid (ReadHeader q) = valid q" "aborted (ReadHeader q) = aborted q"
  by (simp_all add: ReadHeader_def split: prod.splits option.splits)

lemma CreateAnswer_first_pass_invalid:
  assumes "IsValidQuestion (ReadHeader q0)"
    and "\<not> valid (ReadQuestions (unat (questionsCount (header (ReadHeader q0)))) server
                   (EmplaceAnswer (ReadHeader q0)))"
  shows "\<not> valid (CreateAnswer server q0) \<and> answer (CreateAnswer server q0) = None"
  using assms by (simp add: CreateAnswer_def Let_def ReadQuestionsForAdditionalRecords_stopped)

lemma failing_question_first_pass:
  assumes v: "IsValidQuestion (ReadHeader q0)" and a: "\<not> aborted q0"
    and k: "k < unat (questionsCount (header (ReadHeader q0)))"
    and f: "QuestionFails (ReadQuestions k server (EmplaceAnswer (ReadHeader q0)))"
  shows "\<not> valid (CreateAnswer server q0) \<and> answer (CreateAnswer server q0) = None"
proof -
  have "\<not> aborted (EmplaceAnswer (ReadHeader q0))" using a by simp
  with k f have "\<not> valid (ReadQuestions (unat (questionsCount (header (ReadHeader q0)))) server
                   (EmplaceAnswer (ReadHeader q0)))"
    by (rule failing_question_invalidates)
  with v show ?thesis by (rule CreateAnswer_first_pass_invalid)
qed

lemma failing_question_second_pass:
  assumes v: "IsValidQuestion (ReadHeader q0)" and a: "\<not> aborted q0"
    and k: "k < unat (questionsCount (header (ReadHeader q0)))"
    and vq: "valid q0"
    and f: "QuestionFails (ReadQuestionsForAdditionalRecords k server
              ((ReadQuestions (unat (questionsCount (header (ReadHeader q0)))) server (EmplaceAnswer (ReadHeader q0)))
                \<lparr>reader := Rewind (position (reader (EmplaceAnswer (ReadHeader q0))))
                     (reader (ReadQuestions (unat (questionsCount (header (ReadHeader q0)))) server
                        (EmplaceAnswer (ReadHeader q0))))\<rparr>))"
  shows "QuestionFails (ReadQuestions k server (EmplaceAnswer (ReadHeader q0)))
         \<or> \<not> valid (ReadQuestions (unat (questionsCount (header (ReadHeader q0)))) server (EmplaceAnswer (ReadHeader q0)))"
proof (cases "valid (ReadQuestions (unat (questionsCount (header (ReadHeader q0)))) server (EmplaceAnswer (ReadHeader q0)))")
  case False
  then show ?thesis by simp
next
  case True
  let ?q2 = "EmplaceAnswer (ReadHeader q0)"
  let ?n = "unat (questionsCount (header (ReadHeader q0)))"
  let ?q3 = "ReadQuestions ?n server ?q2"
  let ?q4 = "?q3\<lparr>reader := Rewind (position (reader ?q2)) (reader ?q3)\<rparr>"
  have nf2: "\<not> failed ?q2" using v by (simp add: IsValidQuestion_def split: if_splits)
  have nf3: "\<not> failed ?q3" using True nf2 by (rule not_failed_while_valid)
  have "contents (reader ?q3) = contents (reader ?q2)" by simp
  then have "Rewind (position (reader ?q2)) (reader ?q3) = (reader ?q2)\<lparr>position := position (reader ?q2)\<rparr>"
    by (rule Rewind_eq)
  then have rd: "reader ?q4 = reader ?q2" by simp
  have "failed ?q4 = failed ?q2" using nf2 nf3 by simp
  with rd have si: "same_input ?q2 ?q4" by (simp add: same_input_def)
  have "same_input (ReadQuestions k server ?q2) (ReadQuestionsForAdditionalRecords k server ?q4)"
  proof (rule second_pass_follows_first[OF si])
    show "valid ?q4" using True by simp
    show "\<not> aborted ?q4" using a by simp
    show "\<not> aborted ?q2" using a by simp
    show "valid (ReadQuestions ?n server ?q2)" by (rule True)
    show "k \<le> ?n" using k by simp
  qed
  then have "QuestionFails (ReadQuestions k server ?q2)
               = QuestionFails (ReadQuestionsForAdditionalRecords k server ?q4)"
    by (rule QuestionFails_same_input)
  then show ?thesis using f by simp
qed

section \<open>A query with one question\<close>

lemma Extract_contents_eq: "Extract n r = (x, r') \<Longrightarrow> contents r' = contents r"
  using contents_Extract[of n r] by simp

lemma DnsHostnamePartsStream_contents_eq:
  "DnsHostnamePartsStream r = (ls, r') \<Longrightarrow> contents r' = contents r"
  using contents_DnsHostnamePartsStream[of r] by simp

lemma HeaderOf_Some_Extract:
  "HeaderOf r = Some h \<Longrightarrow> \<exists>bs. Extract 12 r = (Some bs, r\<lparr>position := position r + 12\<rparr>) \<and> ParseHeader bs = h"
  by (auto simp: HeaderOf_def Extract_def split: if_splits)

lemma ReadHeader_accepted:
  assumes "HeaderOf r = Some h"
  shows "ReadHeader (QuestionParser_members r w)
           = (QuestionParser_members r w)\<lparr>reader := r\<lparr>position := position r + 12\<rparr>, header := h\<rparr>"
proof -
  from HeaderOf_Some_Extract[OF assms] obtain bs
    where "Extract 12 r = (Some bs, r\<lparr>position := position r + 12\<rparr>)" "ParseHeader bs = h"
    by blast
  then show ?thesis by (simp add: ReadHeader_def QuestionParser_members_def)
qed

lemma scan_question:
  assumes "DnsHostnamePartsStream (reader q) = (labels, r1)" and "Extract 4 r1 = (Some fb, r2)"
  shows "ReadFooter (ReadHostname q)
           = q\<lparr>reconstructedHostname := JoinParts labels, reader := r2, footer := ParseFooter fb\<rparr>"
  using assms by (simp add: ReadFooter_def ReadHostname_def)

lemma QuestionStart_fields [simp]:
  "reader (QuestionStart r h w) = AfterHeader r" "header (QuestionStart r h w) = h"
  "valid (QuestionStart r h w)" "\<not> aborted (QuestionStart r h w)" "\<not> failed (QuestionStart r h w)"
  "writer (QuestionStart r h w) = Insert (StreamHeader (ProvisionalHeader (id' h))) w"
  "answer (QuestionStart r h w)
     = Some \<lparr>queryId = id' h, startMarker = Processed w, answersCount = 0, nameServersCount = 0,
             additionalRecordsCount = 0\<rparr>"
  by (simp_all add: QuestionStart_def EmplaceAnswer_def Answer_new_def QuestionParser_members_def
      ConstructSaveMarker_Processed)

lemma contents_AfterHeader [simp]: "contents (AfterHeader r) = contents r"
  by (simp add: AfterHeader_def)

lemma Rewind_AfterHeader:
  "contents r' = contents r \<Longrightarrow> Rewind (position (AfterHeader r)) r' = AfterHeader r"
  by (simp add: Rewind_def AfterHeader_def)

lemma CreateAnswer_one_question:
  assumes "HeaderOf r = Some h" and "\<not> HeaderRejected (Some h)" and "questionsCount h = 1"
    and "valid (ReadQuestion server (QuestionStart r h w))"
  shows "CreateAnswer server (QuestionParser_members r w)
           = ReadQuestionForAdditionalRecords server
               ((ReadQuestion server (QuestionStart r h w))\<lparr>reader := AfterHeader r\<rparr>)"
proof -
  let ?init = "QuestionParser_members r w"
  have rh: "ReadHeader ?init = ?init\<lparr>reader := AfterHeader r, header := h\<rparr>"
    using ReadHeader_accepted[OF assms(1)] by (simp add: AfterHeader_def)
  have v: "IsValidQuestion (ReadHeader ?init)"
    using accepted_valid[OF assms(1,2)] by simp
  have q2: "EmplaceAnswer (ReadHeader ?init) = QuestionStart r h w"
    by (simp add: rh QuestionStart_def)
  let ?q3 = "ReadQuestion server (QuestionStart r h w)"
  have c: "contents (reader ?q3) = contents r"
    using contents_ReadQuestions[of "Suc 0" server "QuestionStart r h w"] by simp
  have rw: "Rewind (position (AfterHeader r)) (reader ?q3) = AfterHeader r"
    using c by (rule Rewind_AfterHeader)
  have na: "\<not> aborted ?q3" by simp
  show ?thesis
    using v assms(3,4) na
    by (simp add: CreateAnswer_def Let_def q2 rw)
qed

lemma HostNameIs_labels:
  "HostNameIs q components \<longleftrightarrow> DnsHostnamePartsString (reconstructedHostname q) = components"
  by (simp add: HostNameIs_def HostNameIsLoop_iff)

lemma type_distinct [simp]:
  "dnsTypeA \<noteq> dnsTypeAAAA" "dnsTypeA \<noteq> dnsTypePtr" "dnsTypeA \<noteq> dnsTypeSrv" "dnsTypeA \<noteq> dnsTypeTxt"
  "dnsTypePtr \<noteq> dnsTypeA" "dnsTypePtr \<noteq> dnsTypeAAAA" "dnsTypePtr \<noteq> dnsTypeSrv" "dnsTypePtr \<noteq> dnsTypeTxt"
  by (simp_all add: dnsTypeA_def dnsTypeAAAA_def dnsTypePtr_def dnsTypeSrv_def dnsTypeTxt_def)

lemma on_answer_upd:
  "(on_answer f q)\<lparr>reader := rd\<rparr> = on_answer f (q\<lparr>reader := rd\<rparr>)"
  "(on_answer f q)\<lparr>reconstructedHostname := n\<rparr> = on_answer f (q\<lparr>reconstructedHostname := n\<rparr>)"
  "(on_answer f q)\<lparr>footer := ft\<rparr> = on_answer f (q\<lparr>footer := ft\<rparr>)"
  by (simp_all add: on_answer_def split: option.splits prod.splits)

lemma short_name_A_CreateAnswer:
  assumes "HeaderOf r = Some h" and "\<not> HeaderRejected (Some h)" and "questionsCount h = 1"
    and "DnsHostnamePartsStream (AfterHeader r) = (labels, r1)"
    and "DnsHostnamePartsString (JoinParts labels) = [instance' server, local_label]"
    and "Extract 4 r1 = (Some fb, r2)"
    and "ParseFooter fb = \<lparr>footer_type = dnsTypeA, footer_class = dnsClassIn\<rparr>"
  shows "CreateAnswer server (QuestionParser_members r w)
           = on_answer (AddAAnswer server)
               ((QuestionStart r h w)\<lparr>reconstructedHostname := JoinParts labels, reader := r2,
                   footer := \<lparr>footer_type = dnsTypeA, footer_class = dnsClassIn\<rparr>\<rparr>)"
proof -
  let ?ft = "\<lparr>footer_type = dnsTypeA, footer_class = dnsClassIn\<rparr>"
  let ?s = "(QuestionStart r h w)\<lparr>reconstructedHostname := JoinParts labels, reader := r2, footer := ?ft\<rparr>"
  have scan1: "ReadFooter (ReadHostname (QuestionStart r h w)) = ?s"
    using scan_question[of "QuestionStart r h w" labels r1 fb r2] assms(4,6,7) by simp
  have me: "IsQueryForMe server ?s"
    using assms(5) by (simp add: IsQueryForMe_def MyShortInstanceName_def HostNameIs_labels)
  have fv: "IsFooterValid ?s"
    by (simp add: IsFooterValid_def)
  have q3: "ReadQuestion server (QuestionStart r h w) = on_answer (AddAAnswer server) ?s"
    using me fv by (simp add: ReadQuestion_def Let_def scan1)
  let ?q4 = "(on_answer (AddAAnswer server) ?s)\<lparr>reader := AfterHeader r\<rparr>"
  have scan2: "ReadFooter (ReadHostname ?q4) = on_answer (AddAAnswer server) ?s"
    using scan_question[of ?q4 labels r1 fb r2] assms(4,6,7)
    by (simp add: on_answer_upd)
  have me2: "IsQueryForMe server (on_answer (AddAAnswer server) ?s) = IsQueryForMe server ?s"
    by (simp add: IsQueryForMe_def MyShortInstanceName_def MyFullInstanceName_def MyServiceName_def
        HostNameIs_def on_answer_def split: option.splits prod.splits)
  have ft2: "footer (on_answer (AddAAnswer server) ?s) = ?ft"
    by (simp add: on_answer_def split: option.splits prod.splits)
  have q5: "ReadQuestionForAdditionalRecords server ?q4 = on_answer (AddAAnswer server) ?s"
    by (simp add: ReadQuestionForAdditionalRecords_def Let_def scan2 ft2)
  have "valid (ReadQuestion server (QuestionStart r h w))"
    by (simp add: q3)
  from CreateAnswer_one_question[OF assms(1,2,3) this]
  show ?thesis by (simp add: q3 q5)
qed

lemma AddAAnswer_result:
  "AddAAnswer server (a, w)
     = (case ipv4Address server of
          None \<Rightarrow> (a, w)
        | Some address \<Rightarrow>
            (a\<lparr>answersCount := answersCount a + 1\<rparr>,
             Insert (Record [instance' server, local_label] dnsTypeA (IPv4Bytes address)) w))"
proof (cases "ipv4Address server")
  case None
  then show ?thesis by (simp add: AddAAnswer_def)
next
  case (Some address)
  have "AddAAnswer server (a, w)
          = (fst (AddAAnswer server (a, w)), snd (AddAAnswer server (a, w)))" by simp
  also have "fst (AddAAnswer server (a, w)) = a\<lparr>answersCount := answersCount a + 1\<rparr>"
    using Some by (simp add: AddAAnswer_def)
  also have "snd (AddAAnswer server (a, w))
               = Insert (Record [instance' server, local_label] dnsTypeA (IPv4Bytes address)) w"
    using Some by (simp add: AddAAnswer_def AddA_Record)
  finally show ?thesis using Some by simp
qed

lemma Finish_fresh:
  "startMarker a = 0 \<Longrightarrow>
   snd (Finish (a, ByteOutputStreamWriter (StreamHeader h @ records)))
     = ByteOutputStreamWriter (StreamHeader (FinalHeader a) @ records)"
  by (simp add: Finish_def)

lemma footer_on_answer [simp]: "footer (on_answer f q) = footer q"
  by (simp add: on_answer_def split: option.splits prod.splits)

lemma reconstructedHostname_on_answer [simp]:
  "reconstructedHostname (on_answer f q) = reconstructedHostname q"
  by (simp add: on_answer_def split: option.splits prod.splits)

lemma IsQueryForMe_same_question:
  "footer q = footer q' \<Longrightarrow> reconstructedHostname q = reconstructedHostname q' \<Longrightarrow>
     IsQueryForMe server q = IsQueryForMe server q'"
  by (simp add: IsQueryForMe_def MyShortInstanceName_def MyFullInstanceName_def MyServiceName_def
      HostNameIs_def)

lemma IsQueryForMe_on_answer [simp]: "IsQueryForMe server (on_answer f q) = IsQueryForMe server q"
  by (rule IsQueryForMe_same_question) simp_all

lemma Add_results:
  "AddPtrAnswer server (a, w)
     = (a\<lparr>answersCount := answersCount a + 1\<rparr>,
        Insert (Record [serviceName server, type' server, local_label] dnsTypePtr
                  (StreamHostname [instance' server, serviceName server, type' server, local_label])) w)"
  "AddTxtAdditional server (a, w)
     = (a\<lparr>additionalRecordsCount := additionalRecordsCount a + 1\<rparr>,
        Insert (Record [instance' server, serviceName server, type' server, local_label] dnsTypeTxt
                  (StreamParts (text' server))) w)"
  "AddSrvAdditional server (a, w)
     = (a\<lparr>additionalRecordsCount := additionalRecordsCount a + 1\<rparr>,
        Insert (Record [instance' server, serviceName server, type' server, local_label] dnsTypeSrv
                  (BigEndian16 0 @ BigEndian16 0 @ BigEndian16 (port server)
                   @ StreamHostname [instance' server, local_label])) w)"
  "AddAAdditional server (a, w)
     = (case ipv4Address server of
          None \<Rightarrow> (a, w)
        | Some address \<Rightarrow>
            (a\<lparr>additionalRecordsCount := additionalRecordsCount a + 1\<rparr>,
             Insert (Record [instance' server, local_label] dnsTypeA (IPv4Bytes address)) w))"
  "AddAaaaAdditional server (a, w)
     = (case ipv6Address server of
          None \<Rightarrow> (a, w)
        | Some address \<Rightarrow>
            (a\<lparr>additionalRecordsCount := additionalRecordsCount a + 1\<rparr>,
             Insert (Record [instance' server, local_label] dnsTypeAAAA (IPv6Bytes address)) w))"
  by (simp_all add: prod_eq_iff AddPtrAnswer_def AddTxtAdditional_def AddSrvAdditional_def
      AddAAdditional_def AddAaaaAdditional_def AddPtr_Record AddTxt_Record AddSrv_Record
      AddA_Record AddAaaa_Record split: option.splits)

lemma service_PTR_CreateAnswer:
  assumes "HeaderOf r = Some h" and "\<not> HeaderRejected (Some h)" and "questionsCount h = 1"
    and "DnsHostnamePartsStream (AfterHeader r) = (labels, r1)"
    and "DnsHostnamePartsString (JoinParts labels) = [serviceName server, type' server, local_label]"
    and "Extract 4 r1 = (Some fb, r2)"
    and "ParseFooter fb = \<lparr>footer_type = dnsTypePtr, footer_class = dnsClassIn\<rparr>"
  shows "CreateAnswer server (QuestionParser_members r w)
           = on_answer (AddAaaaAdditional server)
               (on_answer (AddAAdditional server)
                  (on_answer (AddSrvAdditional server)
                     (on_answer (AddTxtAdditional server)
                        (on_answer (AddPtrAnswer server)
                           ((QuestionStart r h w)\<lparr>reconstructedHostname := JoinParts labels, reader := r2,
                               footer := \<lparr>footer_type = dnsTypePtr, footer_class = dnsClassIn\<rparr>\<rparr>)))))"
proof -
  let ?ft = "\<lparr>footer_type = dnsTypePtr, footer_class = dnsClassIn\<rparr>"
  let ?s = "(QuestionStart r h w)\<lparr>reconstructedHostname := JoinParts labels, reader := r2, footer := ?ft\<rparr>"
  have scan1: "ReadFooter (ReadHostname (QuestionStart r h w)) = ?s"
    using scan_question[of "QuestionStart r h w" labels r1 fb r2] assms(4,6,7) by simp
  have me: "IsQueryForMe server ?s"
    using assms(5) by (simp add: IsQueryForMe_def MyServiceName_def HostNameIs_labels)
  have fv: "IsFooterValid ?s"
    by (simp add: IsFooterValid_def)
  have q3: "ReadQuestion server (QuestionStart r h w) = on_answer (AddPtrAnswer server) ?s"
    using me fv by (simp add: ReadQuestion_def Let_def scan1)
  let ?q4 = "(on_answer (AddPtrAnswer server) ?s)\<lparr>reader := AfterHeader r\<rparr>"
  have scan2: "ReadFooter (ReadHostname ?q4) = on_answer (AddPtrAnswer server) ?s"
    using scan_question[of ?q4 labels r1 fb r2] assms(4,6,7)
    by (simp add: on_answer_upd)
  have q5: "ReadQuestionForAdditionalRecords server ?q4
              = on_answer (AddAaaaAdditional server)
                  (on_answer (AddAAdditional server)
                     (on_answer (AddSrvAdditional server)
                        (on_answer (AddTxtAdditional server) (on_answer (AddPtrAnswer server) ?s))))"
    using me by (simp add: ReadQuestionForAdditionalRecords_def Let_def scan2)
  have "valid (ReadQuestion server (QuestionStart r h w))"
    by (simp add: q3)
  from CreateAnswer_one_question[OF assms(1,2,3) this]
  show ?thesis by (simp add: q3 q5)
qed

lemma service_PTR_result:
  assumes "HeaderOf r = Some h" and "\<not> HeaderRejected (Some h)" and "questionsCount h = 1"
    and "DnsHostnamePartsStream (AfterHeader r) = (labels, r1)"
    and "DnsHostnamePartsString (JoinParts labels) = [serviceName server, type' server, local_label]"
    and "Extract 4 r1 = (Some fb, r2)"
    and "ParseFooter fb = \<lparr>footer_type = dnsTypePtr, footer_class = dnsClassIn\<rparr>"
  shows "answer (CreateAnswer server (QuestionParser_members r w))
           = Some \<lparr>queryId = id' h, startMarker = Processed w, answersCount = 1, nameServersCount = 0,
                   additionalRecordsCount = 2 + AddressCount server\<rparr>"
    and "writer (CreateAnswer server (QuestionParser_members r w))
           = Insert (StreamHeader (ProvisionalHeader (id' h))
                     @ Record [serviceName server, type' server, local_label] dnsTypePtr
                         (StreamHostname [instance' server, serviceName server, type' server, local_label])
                     @ Record [instance' server, serviceName server, type' server, local_label] dnsTypeTxt
                         (StreamParts (text' server))
                     @ Record [instance' server, serviceName server, type' server, local_label] dnsTypeSrv
                         (BigEndian16 0 @ BigEndian16 0 @ BigEndian16 (port server)
                          @ StreamHostname [instance' server, local_label])
                     @ AddressRecords server) w"
  unfolding service_PTR_CreateAnswer[OF assms]
  by (cases "ipv4Address server"; cases "ipv6Address server";
      simp add: on_answer_def Add_results AddressCount_def AddressRecords_def Insert_append)+

lemma other_name_PTR_CreateAnswer:
  assumes "HeaderOf r = Some h" and "\<not> HeaderRejected (Some h)" and "questionsCount h = 1"
    and "DnsHostnamePartsStream (AfterHeader r) = (labels, r1)"
    and "DnsHostnamePartsString (JoinParts labels) \<noteq> [serviceName server, type' server, local_label]"
    and "Extract 4 r1 = (Some fb, r2)"
    and "ParseFooter fb = \<lparr>footer_type = dnsTypePtr, footer_class = dnsClassIn\<rparr>"
  shows "CreateAnswer server (QuestionParser_members r w)
           = (QuestionStart r h w)\<lparr>reconstructedHostname := JoinParts labels, reader := r2,
                 footer := \<lparr>footer_type = dnsTypePtr, footer_class = dnsClassIn\<rparr>\<rparr>"
proof -
  let ?ft = "\<lparr>footer_type = dnsTypePtr, footer_class = dnsClassIn\<rparr>"
  let ?s = "(QuestionStart r h w)\<lparr>reconstructedHostname := JoinParts labels, reader := r2, footer := ?ft\<rparr>"
  have scan1: "ReadFooter (ReadHostname (QuestionStart r h w)) = ?s"
    using scan_question[of "QuestionStart r h w" labels r1 fb r2] assms(4,6,7) by simp
  have me: "\<not> IsQueryForMe server ?s"
    using assms(5) by (simp add: IsQueryForMe_def MyServiceName_def HostNameIs_labels)
  have fv: "IsFooterValid ?s"
    by (simp add: IsFooterValid_def)
  have q3: "ReadQuestion server (QuestionStart r h w) = ?s"
    using me fv by (simp add: ReadQuestion_def Let_def scan1)
  let ?q4 = "?s\<lparr>reader := AfterHeader r\<rparr>"
  have scan2: "ReadFooter (ReadHostname ?q4) = ?s"
    using scan_question[of ?q4 labels r1 fb r2] assms(4,6,7) by simp
  have q5: "ReadQuestionForAdditionalRecords server ?q4 = ?s"
    unfolding ReadQuestionForAdditionalRecords_def Let_def scan2 using me by simp
  have v: "valid (ReadQuestion server (QuestionStart r h w))"
    by (simp add: q3)
  have "CreateAnswer server (QuestionParser_members r w)
          = ReadQuestionForAdditionalRecords server
              ((ReadQuestion server (QuestionStart r h w))\<lparr>reader := AfterHeader r\<rparr>)"
    by (rule CreateAnswer_one_question[OF assms(1,2,3) v])
  also have "\<dots> = ReadQuestionForAdditionalRecords server ?q4"
    unfolding q3 by (rule refl)
  also note q5
  finally show ?thesis .
qed

section \<open>Names on the wire\<close>

text \<open>
  A name whose labels have no dot is read back from its dot-joined form, and a name in
  plain encoding, with labels of 1 to 63 bytes, is decoded to its labels: a query that
  is a header, an encoded name and a footer is read as that header, those labels and
  that footer.
\<close>

lemma DnsHostnamePartsString_nonempty: "DnsHostnamePartsString s \<noteq> []"
  by (induction s) (auto split: list.splits)

lemma split_one_label: "dot \<notin> set l \<Longrightarrow> DnsHostnamePartsString l = [l]"
  by (induction l) (auto split: list.splits)

lemma split_first_label:
  "dot \<notin> set l \<Longrightarrow> DnsHostnamePartsString (l @ dot # rest) = l # DnsHostnamePartsString rest"
  by (induction l) (auto split: list.splits)

lemma labels_of_joined_name:
  "labels \<noteq> [] \<Longrightarrow> \<forall>l \<in> set labels. dot \<notin> set l \<Longrightarrow>
     DnsHostnamePartsString (JoinParts labels) = labels"
proof (induction labels)
  case Nil
  then show ?case by simp
next
  case (Cons l labels)
  show ?case
  proof (cases "labels = []")
    case True
    then show ?thesis using Cons.prems by (simp add: split_one_label)
  next
    case False
    then show ?thesis using Cons by (simp add: split_first_label)
  qed
qed

lemma label_length_byte:
  assumes "l \<noteq> []" and "length l \<le> 63"
  shows "(of_nat (length l) :: byte) \<noteq> 0" and "unat (of_nat (length l) :: byte) = length l"
    and "(of_nat (length l) :: byte) AND 0xC0 \<noteq> 0xC0"
proof -
  have n: "length l < 256" using assms(2) by simp
  show u: "unat (of_nat (length l) :: byte) = length l"
    using n by (simp add: unat_of_nat)
  show "(of_nat (length l) :: byte) \<noteq> 0"
    using u assms(1) by (metis length_0_conv unat_0)
  have "unat ((of_nat (length l) :: byte) AND 0xC0) \<le> unat (of_nat (length l) :: byte)"
    by (rule word_and_le2[THEN word_le_nat_alt[THEN iffD1]])
  then have "unat ((of_nat (length l) :: byte) AND 0xC0) \<le> 63"
    using u assms(2) by simp
  then have le: "unat ((of_nat (length l) :: byte) AND 0xC0) \<le> 63" .
  show "(of_nat (length l) :: byte) AND 0xC0 \<noteq> 0xC0"
  proof
    assume "(of_nat (length l) :: byte) AND 0xC0 = 0xC0"
    then have "unat ((of_nat (length l) :: byte) AND 0xC0) = 192" by simp
    with le show False by simp
  qed
qed

lemma Labels_StreamParts:
  assumes "\<forall>l \<in> set ls. l \<noteq> [] \<and> length l \<le> 63"
  shows "Labels d p (StreamParts ls @ 0 # rest) = Some (ls, p + PartsSize ls + 1)"
  using assms
proof (induction ls arbitrary: p)
  case Nil
  show ?case by simp
next
  case (Cons l ls)
  have l: "l \<noteq> []" "length l \<le> 63" using Cons.prems by simp_all
  note b = label_length_byte[OF l]
  have ih: "Labels d (Suc (p + length l)) (StreamParts ls @ 0 # rest)
              = Some (ls, Suc (p + length l) + PartsSize ls + 1)"
    using Cons.IH[of "Suc (p + length l)"] Cons.prems by simp
  have "Labels d p (of_nat (length l) # (l @ StreamParts ls @ 0 # rest))
          = Some (l # ls, p + 1 + length l + PartsSize ls + 1)"
    using l(2) by (simp add: b ih)
  then show ?case by (simp add: add.assoc)
qed

lemma DnsHostnamePartsStream_encoded:
  assumes "contents r = before @ StreamHostname ls @ rest" and "position r = length before"
    and "\<forall>l \<in> set ls. l \<noteq> [] \<and> length l \<le> 63" and "StreamedSize ls \<le> 255"
  shows "DnsHostnamePartsStream r = (ls, r\<lparr>position := position r + StreamedSize ls\<rparr>)"
proof -
  have "drop (position r) (contents r) = StreamParts ls @ 0 # rest"
    using assms(1,2) by (simp add: StreamHostname_def)
  then have "Labels (contents r) (position r) (drop (position r) (contents r))
               = Some (ls, position r + PartsSize ls + 1)"
    using Labels_StreamParts[OF assms(3)] by simp
  then show ?thesis
    using assms(4) by (simp add: DnsHostnamePartsStream_def StreamedSize_def)
qed

lemma FromBigEndian16_BigEndian16:
  "FromBigEndian16 (ucast (drop_bit 8 v)) (ucast v) = (v :: uint16)"
  unfolding FromBigEndian16_def
  by (rule bit_word_eqI) (auto simp: bit_simps)

lemma u16_at_BigEndian16:
  "length before = i \<Longrightarrow> u16_at (before @ BigEndian16 v @ rest) i = v"
  by (simp add: u16_at_def BigEndian16_def nth_append FromBigEndian16_BigEndian16)

lemma ParseHeader_StreamHeader: "ParseHeader (StreamHeader h) = h"
proof -
  have "u16_at (StreamHeader h) 0 = id' h"
    using u16_at_BigEndian16[of "[]" 0] by (simp add: StreamHeader_def)
  moreover have "u16_at (StreamHeader h) 2 = flags h"
    using u16_at_BigEndian16[of "BigEndian16 (id' h)" 2 "flags h"] by (simp add: StreamHeader_def)
  moreover have "u16_at (StreamHeader h) 4 = questionsCount h"
    using u16_at_BigEndian16[of "BigEndian16 (id' h) @ BigEndian16 (flags h)" 4 "questionsCount h"]
    by (simp add: StreamHeader_def)
  moreover have "u16_at (StreamHeader h) 6 = hdrAnswersCount h"
    using u16_at_BigEndian16[of "BigEndian16 (id' h) @ BigEndian16 (flags h) @ BigEndian16 (questionsCount h)"
        6 "hdrAnswersCount h"]
    by (simp add: StreamHeader_def)
  moreover have "u16_at (StreamHeader h) 8 = hdrNameServersCount h"
    using u16_at_BigEndian16[of "BigEndian16 (id' h) @ BigEndian16 (flags h) @ BigEndian16 (questionsCount h)
        @ BigEndian16 (hdrAnswersCount h)" 8 "hdrNameServersCount h"]
    by (simp add: StreamHeader_def)
  moreover have "u16_at (StreamHeader h) 10 = hdrAdditionalRecordsCount h"
    using u16_at_BigEndian16[of "BigEndian16 (id' h) @ BigEndian16 (flags h) @ BigEndian16 (questionsCount h)
        @ BigEndian16 (hdrAnswersCount h) @ BigEndian16 (hdrNameServersCount h)" 10
        "hdrAdditionalRecordsCount h" "[]"]
    by (simp add: StreamHeader_def)
  ultimately show ?thesis by (simp add: ParseHeader_def)
qed

lemma ParseFooter_BigEndian16:
  "ParseFooter (BigEndian16 t @ BigEndian16 c) = \<lparr>footer_type = t, footer_class = c\<rparr>"
  using u16_at_BigEndian16[of "[]" 0 t "BigEndian16 c"] u16_at_BigEndian16[of "BigEndian16 t" 2 c "[]"]
  by (simp add: ParseFooter_def)

lemma encoded_question:
  assumes "contents r = StreamHeader h @ StreamHostname ls @ BigEndian16 t @ BigEndian16 c @ rest"
    and "position r = 0"
    and "\<forall>l \<in> set ls. l \<noteq> [] \<and> length l \<le> 63" and "StreamedSize ls \<le> 255"
  shows "HeaderOf r = Some h"
    and "DnsHostnamePartsStream (AfterHeader r) = (ls, r\<lparr>position := 12 + StreamedSize ls\<rparr>)"
    and "Extract 4 (r\<lparr>position := 12 + StreamedSize ls\<rparr>)
           = (Some (BigEndian16 t @ BigEndian16 c), r\<lparr>position := 16 + StreamedSize ls\<rparr>)"
    and "ParseFooter (BigEndian16 t @ BigEndian16 c) = \<lparr>footer_type = t, footer_class = c\<rparr>"
proof -
  show "HeaderOf r = Some h"
    using assms(1,2)
    by (simp add: HeaderOf_def Extract_def Available_def ParseHeader_StreamHeader)
  have "DnsHostnamePartsStream (AfterHeader r)
          = (ls, (AfterHeader r)\<lparr>position := position (AfterHeader r) + StreamedSize ls\<rparr>)"
    by (rule DnsHostnamePartsStream_encoded[where before = "StreamHeader h"
          and rest = "BigEndian16 t @ BigEndian16 c @ rest"])
       (use assms in \<open>simp_all add: AfterHeader_def\<close>)
  then show "DnsHostnamePartsStream (AfterHeader r) = (ls, r\<lparr>position := 12 + StreamedSize ls\<rparr>)"
    using assms(2) by (simp add: AfterHeader_def)
  show "Extract 4 (r\<lparr>position := 12 + StreamedSize ls\<rparr>)
           = (Some (BigEndian16 t @ BigEndian16 c), r\<lparr>position := 16 + StreamedSize ls\<rparr>)"
    using assms(1) length_StreamHostname[of ls]
    by (simp add: Extract_def Available_def)
  show "ParseFooter (BigEndian16 t @ BigEndian16 c) = \<lparr>footer_type = t, footer_class = c\<rparr>"
    by (rule ParseFooter_BigEndian16)
qed

lemma aborted_ReadQuestionsForAdditionalRecords [simp]:
  "aborted (ReadQuestionsForAdditionalRecords n server q) = aborted q"
  by (induction n arbitrary: q) simp_all

lemma never_aborts: "\<not> aborted (CreateAnswer server (QuestionParser_members r w))"
proof -
  have "aborted (CreateAnswer server q) = aborted q" for q
    by (simp add: CreateAnswer_def Let_def)
  then show ?thesis by (simp add: QuestionParser_members_def)
qed

section \<open>The hostname matcher\<close>

text \<open>
  C5. \<^verbatim>\<open>HostNameIs\<close> succeeds exactly when the labels of the decoded dot-joined name and
  the components of the pattern are the same sequence: equal label by label, in order,
  and exhausted together. A pattern that is a proper prefix of the name's labels does not
  match, and neither does a name whose labels are a proper prefix of the pattern.
\<close>

theorem HostNameIs_exact_match:
  "(HostNameIs q components \<longleftrightarrow> DnsHostnamePartsString (reconstructedHostname q) = components)
   \<and> (HostNameIsLoop parts components \<longleftrightarrow> parts = components)
   \<and> \<not> HostNameIsLoop (parts @ p # rest) parts
   \<and> \<not> HostNameIsLoop parts (parts @ p # rest)"
proof -
  have loop: "HostNameIsLoop ps cs \<longleftrightarrow> ps = cs" for ps cs
    by (induction ps cs rule: HostNameIsLoop.induct) auto
  have "HostNameIs q components \<longleftrightarrow> DnsHostnamePartsString (reconstructedHostname q) = components"
    by (simp add: HostNameIs_def loop)
  moreover have "\<not> HostNameIsLoop (parts @ p # rest) parts"
    by (simp add: loop)
  moreover have "\<not> HostNameIsLoop parts (parts @ p # rest)"
    by (simp add: loop)
  ultimately show ?thesis
    using loop[of parts components] by simp
qed

section \<open>Rejected headers\<close>

text \<open>
  C1. When the header of a datagram fails to parse, or its opcode is not QUERY, or its
  response bit is set, or its answers, name-servers or additional-records count is not
  zero, the dry run has no answer, \<^verbatim>\<open>DataReceived\<close> requests no send stream and does not
  keep the reader: the retained reader is what it was before, none in the idle state.
\<close>

theorem invalid_header_silent_drop:
  assumes "HeaderRejected (HeaderOf r)"
  shows "\<not> HasAnswer (QuestionParser_counting server r)
       \<and> requestedSendStreams (DataReceived server st r sender) = requestedSendStreams st
       \<and> waitingReader (DataReceived server st r sender) = waitingReader st"
proof -
  have "\<not> IsValidQuestion (ReadHeader (QuestionParser_members r (CountingStreamWriter 0)))"
    using assms rejected_not_valid[of "QuestionParser_members r (CountingStreamWriter 0)"]
    by (simp add: QuestionParser_members_def)
  then have "answer (CreateAnswer server (QuestionParser_members r (CountingStreamWriter 0))) = None"
    by (rule not_valid_no_answer)
  then have n: "\<not> HasAnswer (QuestionParser_counting server r)"
    by (simp add: HasAnswer_def QuestionParser_counting_def Let_def)
  then show ?thesis
    by (simp add: DataReceived_def Let_def)
qed

theorem invalid_header_silent_drop_witness:
  "HeaderRejected (HeaderOf exampleResponse)
   \<and> \<not> HasAnswer (QuestionParser_counting exampleServer exampleResponse)
   \<and> requestedSendStreams (DataReceived exampleServer idle exampleResponse exampleSender) = []
   \<and> waitingReader (DataReceived exampleServer idle exampleResponse exampleSender) = None"
proof -
  have h: "HeaderRejected (HeaderOf exampleResponse)"
    by code_simp
  show ?thesis
    using h invalid_header_silent_drop[OF h, of exampleServer idle exampleSender]
    by (simp add: idle_def)
qed

section \<open>One query at a time\<close>

text \<open>
  C9. While a reader is retained, \<^verbatim>\<open>DataReceived\<close> leaves the state as it is: the second
  datagram is dropped. When a first datagram from the mDNS port arrives in the idle state
  and has an answer, its reader is retained (rewound), a second datagram changes nothing,
  and \<^verbatim>\<open>SendStreamAvailable\<close> then writes the reply of the real pass over the first
  datagram and releases the reader: the state is again the idle one, with the one request
  for a send stream recorded.
\<close>

theorem busy_drops_second_datagram:
  "(waitingReader busy \<noteq> None \<longrightarrow> DataReceived server busy r2 sender2 = busy)
   \<and> (waitingReader st = None \<and> GetPort sender1 = mdnsPort \<and> HasAnswer (QuestionParser_counting server r1) \<longrightarrow>
       waitingReader (DataReceived server st r1 sender1) = Some (r1\<lparr>position := 0\<rparr>)
       \<and> DataReceived server (DataReceived server st r1 sender1) r2 sender2 = DataReceived server st r1 sender1
       \<and> SendStreamAvailable server (DataReceived server (DataReceived server st r1 sender1) r2 sender2) w
           = Some ((DataReceived server st r1 sender1)\<lparr>waitingReader := None\<rparr>,
                   writer (QuestionParser_writing server (r1\<lparr>position := 0\<rparr>) w))
       \<and> (DataReceived server st r1 sender1)\<lparr>waitingReader := None\<rparr>
           = st\<lparr>requestedSendStreams := requestedSendStreams st @
                 [(Processed (writer (QuestionParser_counting server r1)), Udpv4 (IPv4Address 224 0 0 251) 5353)]\<rparr>)"
proof -
  have a: "waitingReader busy \<noteq> None \<Longrightarrow> DataReceived server busy r2 sender2 = busy"
    by (simp add: DataReceived_def)
  have b: "waitingReader (DataReceived server st r1 sender1) = Some (r1\<lparr>position := 0\<rparr>)"
    if "waitingReader st = None" "GetPort sender1 = mdnsPort" "HasAnswer (QuestionParser_counting server r1)"
    using that by (simp add: DataReceived_def Let_def RequestSendStream_def reader_QuestionParser_counting)
  have c: "DataReceived server (DataReceived server st r1 sender1) r2 sender2 = DataReceived server st r1 sender1"
    if "waitingReader st = None" "GetPort sender1 = mdnsPort" "HasAnswer (QuestionParser_counting server r1)"
    using b[OF that] by (simp add: DataReceived_def[of server "DataReceived server st r1 sender1"])
  have d: "(DataReceived server st r1 sender1)\<lparr>waitingReader := None\<rparr>
           = st\<lparr>requestedSendStreams := requestedSendStreams st @
                 [(Processed (writer (QuestionParser_counting server r1)), Udpv4 (IPv4Address 224 0 0 251) 5353)]\<rparr>"
    if "waitingReader st = None" "GetPort sender1 = mdnsPort" "HasAnswer (QuestionParser_counting server r1)"
    using that by (simp add: DataReceived_def Let_def RequestSendStream_def MakeUdpSocket_def mdnsMulticastAddress_def mdnsPort_def)
  show ?thesis using a b c d
    by (simp add: SendStreamAvailable_def Let_def)
qed

theorem busy_drops_second_datagram_witness:
  "waitingReader (DataReceived exampleServer idle exampleQueryA exampleSender) \<noteq> None
   \<and> waitingReader idle = None \<and> GetPort exampleSender = mdnsPort
   \<and> HasAnswer (QuestionParser_counting exampleServer exampleQueryA)
   \<and> DataReceived exampleServer (DataReceived exampleServer idle exampleQueryA exampleSender)
        exampleQueryPtrService exampleSender
      = DataReceived exampleServer idle exampleQueryA exampleSender
   \<and> waitingReader (DataReceived exampleServer idle exampleQueryA exampleSender)
      = Some (exampleQueryA\<lparr>position := 0\<rparr>)
   \<and> SendStreamAvailable exampleServer
        (DataReceived exampleServer (DataReceived exampleServer idle exampleQueryA exampleSender)
           exampleQueryPtrService exampleSender)
        (ByteOutputStreamWriter [])
      = Some ((DataReceived exampleServer idle exampleQueryA exampleSender)\<lparr>waitingReader := None\<rparr>,
              writer (QuestionParser_writing exampleServer (exampleQueryA\<lparr>position := 0\<rparr>)
                        (ByteOutputStreamWriter [])))"
proof -
  have h1: "waitingReader (DataReceived exampleServer idle exampleQueryA exampleSender) \<noteq> None"
    by code_simp
  have h2: "waitingReader idle = None \<and> GetPort exampleSender = mdnsPort
            \<and> HasAnswer (QuestionParser_counting exampleServer exampleQueryA)"
    by code_simp
  show ?thesis
    using h1 h2
      busy_drops_second_datagram[of "DataReceived exampleServer idle exampleQueryA exampleSender"
        exampleServer exampleQueryPtrService exampleSender idle exampleSender exampleQueryA
        "ByteOutputStreamWriter []"]
    by blast
qed

section \<open>The header is written first and patched last\<close>

text \<open>
  C7. When the header of the query is accepted, the pass first writes the provisional
  header: the query's id, the response flag and four zero counts, twelve bytes. All that
  the pass writes after it is appended behind it. \<^verbatim>\<open>Finish\<close> replaces those twelve bytes
  by the header with the answers count and the additional-records count of the builder
  (questions and name servers zero) and leaves every other byte of the output as it was;
  no other operation overwrites.
\<close>

theorem provisional_header_patched_by_Finish:
  assumes "HeaderOf r = Some h" and "\<not> HeaderRejected (Some h)"
  shows "\<exists>records.
      writer (CreateAnswer server (QuestionParser_members r (ByteOutputStreamWriter out)))
        = ByteOutputStreamWriter (out @ StreamHeader (ProvisionalHeader (id' h)) @ records)
    \<and> StreamHeader (ProvisionalHeader (id' h)) = BigEndian16 (id' h) @ [0x80, 0, 0, 0, 0, 0, 0, 0, 0, 0]
    \<and> (case answer (CreateAnswer server (QuestionParser_members r (ByteOutputStreamWriter out))) of
         None \<Rightarrow>
           writer (QuestionParser_writing server r (ByteOutputStreamWriter out))
             = ByteOutputStreamWriter (out @ StreamHeader (ProvisionalHeader (id' h)) @ records)
       | Some a \<Rightarrow>
           writer (QuestionParser_writing server r (ByteOutputStreamWriter out))
             = ByteOutputStreamWriter (out @ StreamHeader (FinalHeader a) @ records)
           \<and> StreamHeader (FinalHeader a)
               = BigEndian16 (id' h) @ [0x80, 0, 0, 0] @ BigEndian16 (answersCount a) @ [0, 0]
                 @ BigEndian16 (additionalRecordsCount a))"
proof -
  let ?w = "ByteOutputStreamWriter out"
  let ?init = "QuestionParser_members r ?w"
  let ?q = "CreateAnswer server ?init"
  let ?prov = "StreamHeader (ProvisionalHeader (id' h))"
  have v: "IsValidQuestion (ReadHeader ?init)" and hd: "header (ReadHeader ?init) = h"
    using accepted_valid[OF assms] by simp_all
  have w0: "writer ?init = ?w" and a0: "answer ?init = None"
    by (simp_all add: QuestionParser_members_def)
  from CreateAnswer_writer[OF v, of server] obtain records
    where "writer ?q = Insert (?prov @ records) (writer ?init)"
    unfolding hd by blast
  then have wr: "writer ?q = ByteOutputStreamWriter (out @ ?prov @ records)"
    by (simp add: w0)
  have fin: "writer (QuestionParser_writing server r ?w)
               = ByteOutputStreamWriter (out @ StreamHeader (FinalHeader a) @ records)
             \<and> StreamHeader (FinalHeader a)
               = BigEndian16 (id' h) @ [0x80, 0, 0, 0] @ BigEndian16 (answersCount a) @ [0, 0]
                 @ BigEndian16 (additionalRecordsCount a)"
    if "answer ?q = Some a" for a
  proof -
    from CreateAnswer_identity[OF that a0]
    have i: "queryId a = id' h" "startMarker a = length out" "nameServersCount a = 0"
      by (simp_all add: hd w0)
    have "writer (QuestionParser_writing server r ?w)
            = ByteOutputStreamWriter (out @ StreamHeader (FinalHeader a) @ records)"
      by (simp add: writer_QuestionParser_writing that Finish_def wr i)
    moreover have "StreamHeader (FinalHeader a)
               = BigEndian16 (id' h) @ [0x80, 0, 0, 0] @ BigEndian16 (answersCount a) @ [0, 0]
                 @ BigEndian16 (additionalRecordsCount a)"
      by (simp add: StreamHeader_def FinalHeader_def i)
    ultimately show ?thesis by simp
  qed
  have none: "writer (QuestionParser_writing server r ?w) = ByteOutputStreamWriter (out @ ?prov @ records)"
    if "answer ?q = None"
    by (simp add: writer_QuestionParser_writing that wr)
  have "writer ?q = ByteOutputStreamWriter (out @ ?prov @ records)
      \<and> ?prov = BigEndian16 (id' h) @ [0x80, 0, 0, 0, 0, 0, 0, 0, 0, 0]
      \<and> (case answer ?q of
         None \<Rightarrow>
           writer (QuestionParser_writing server r ?w) = ByteOutputStreamWriter (out @ ?prov @ records)
       | Some a \<Rightarrow>
           writer (QuestionParser_writing server r ?w)
             = ByteOutputStreamWriter (out @ StreamHeader (FinalHeader a) @ records)
           \<and> StreamHeader (FinalHeader a)
               = BigEndian16 (id' h) @ [0x80, 0, 0, 0] @ BigEndian16 (answersCount a) @ [0, 0]
                 @ BigEndian16 (additionalRecordsCount a))"
    using wr fin none by (simp add: StreamHeader_Provisional split: option.splits)
  then show ?thesis by (rule exI)
qed

theorem provisional_header_patched_by_Finish_witness:
  "HeaderOf exampleQueryA
     = Some \<lparr>id' = 0x1234, flags = 0, questionsCount = 1, hdrAnswersCount = 0,
             hdrNameServersCount = 0, hdrAdditionalRecordsCount = 0\<rparr>
   \<and> \<not> HeaderRejected
         (Some \<lparr>id' = 0x1234, flags = 0, questionsCount = 1, hdrAnswersCount = 0,
                 hdrNameServersCount = 0, hdrAdditionalRecordsCount = 0\<rparr>)
   \<and> (\<exists>records.
        writer (CreateAnswer exampleServer (QuestionParser_members exampleQueryA (ByteOutputStreamWriter [])))
          = ByteOutputStreamWriter ([] @ StreamHeader (ProvisionalHeader 0x1234) @ records)
        \<and> writer (QuestionParser_writing exampleServer exampleQueryA (ByteOutputStreamWriter []))
          = ByteOutputStreamWriter
              ([] @ [0x12, 0x34, 0x80, 0, 0, 0, 0, 1, 0, 0, 0, 0] @ records))"
proof -
  let ?h = "\<lparr>id' = 0x1234, flags = 0, questionsCount = 1, hdrAnswersCount = 0,
             hdrNameServersCount = 0, hdrAdditionalRecordsCount = 0\<rparr> :: DnsRecordHeader"
  have h1: "HeaderOf exampleQueryA = Some ?h"
    by code_simp
  have h2: "\<not> HeaderRejected (Some ?h)"
    by code_simp
  have a: "answer (CreateAnswer exampleServer (QuestionParser_members exampleQueryA (ByteOutputStreamWriter [])))
             = Some \<lparr>queryId = 0x1234, startMarker = 0, answersCount = 1, nameServersCount = 0,
                     additionalRecordsCount = 0\<rparr>"
    by code_simp
  have f: "StreamHeader (FinalHeader \<lparr>queryId = 0x1234, startMarker = 0, answersCount = 1,
              nameServersCount = 0, additionalRecordsCount = 0\<rparr>)
             = [0x12, 0x34, 0x80, 0, 0, 0, 0, 1, 0, 0, 0, 0]"
    by code_simp
  from provisional_header_patched_by_Finish[OF h1 h2, of exampleServer "[]"]
  show ?thesis
    using h1 h2 unfolding a by (auto simp: f)
qed

section \<open>The two passes agree\<close>

text \<open>
  C3. The dry run into the counting writer and the real pass into the granted buffer,
  over the same reader, end with the same builder, hence the same answers count and the
  same additional-records count, and with the same decision whether there is an answer.
  The counting writer has counted exactly the bytes that the real pass has written:
  every member of the two parsers is the same but the writer, and the dry run's writer
  is the count of the real one's bytes.
\<close>

theorem dry_run_equals_real_pass:
  "answer (QuestionParser_counting server r) = answer (QuestionParser_writing server r (ByteOutputStreamWriter []))
   \<and> map_option answersCount (answer (QuestionParser_counting server r))
       = map_option answersCount (answer (QuestionParser_writing server r (ByteOutputStreamWriter [])))
   \<and> map_option additionalRecordsCount (answer (QuestionParser_counting server r))
       = map_option additionalRecordsCount (answer (QuestionParser_writing server r (ByteOutputStreamWriter [])))
   \<and> HasAnswer (QuestionParser_counting server r)
       = HasAnswer (QuestionParser_writing server r (ByteOutputStreamWriter []))
   \<and> writer (QuestionParser_counting server r)
       = CountingStreamWriter (Processed (writer (QuestionParser_writing server r (ByteOutputStreamWriter []))))
   \<and> QuestionParser_counting server r
       = counting_view (QuestionParser_writing server r (ByteOutputStreamWriter []))"
proof -
  let ?q = "CreateAnswer server (QuestionParser_members r (ByteOutputStreamWriter []))"
  have "QuestionParser_counting server r
       = counting_view (QuestionParser_writing server r (ByteOutputStreamWriter []))"
  proof (cases "answer ?q")
    case None
    then show ?thesis
      by (simp add: QuestionParser_counting_def QuestionParser_writing_def Let_def dry_is_view
          counting_view_def)
  next
    case (Some a)
    from Processed_Finish[OF Some] show ?thesis using Some
      by (cases "Finish (a, writer ?q)")
         (simp add: QuestionParser_counting_def QuestionParser_writing_def Let_def dry_is_view
          counting_view_def on_answer_def counting_def Finish_def)
  qed
  then show ?thesis
    by (simp add: HasAnswer_def counting_view_def counting_def)
qed

section \<open>The name field of a record\<close>

text \<open>
  Each operation of the builder hands the owner name of its record to the name encoder.
  So every record, as an answer or as an additional record, starts with its owner name in
  full, each label behind its length byte and a zero byte at the end: \<^verbatim>\<open>instance.local\<close>
  for A and AAAA, \<^verbatim>\<open>serviceName.type.local\<close> for PTR,
  \<^verbatim>\<open>instance.serviceName.type.local\<close> for SRV and TXT. The type, the class, the time to
  live, the length of the resource data and the resource data follow.
\<close>

lemma record_names_written_in_full:
  "snd (AddAAnswer server (a, w))
     = (case ipv4Address server of
          None \<Rightarrow> w
        | Some address \<Rightarrow>
            Insert (Record [instance' server, local_label] dnsTypeA (IPv4Bytes address)) w)
   \<and> snd (AddAAdditional server (a, w)) = snd (AddAAnswer server (a, w))
   \<and> snd (AddAaaaAnswer server (a, w))
     = (case ipv6Address server of
          None \<Rightarrow> w
        | Some address \<Rightarrow>
            Insert (Record [instance' server, local_label] dnsTypeAAAA (IPv6Bytes address)) w)
   \<and> snd (AddAaaaAdditional server (a, w)) = snd (AddAaaaAnswer server (a, w))
   \<and> snd (AddPtrAnswer server (a, w))
     = Insert (Record [serviceName server, type' server, local_label] dnsTypePtr
                 (StreamHostname [instance' server, serviceName server, type' server, local_label])) w
   \<and> snd (AddSrvAnswer server (a, w))
     = Insert (Record [instance' server, serviceName server, type' server, local_label] dnsTypeSrv
                 (BigEndian16 0 @ BigEndian16 0 @ BigEndian16 (port server)
                  @ StreamHostname [instance' server, local_label])) w
   \<and> snd (AddSrvAdditional server (a, w)) = snd (AddSrvAnswer server (a, w))
   \<and> snd (AddTxtAnswer server (a, w))
     = Insert (Record [instance' server, serviceName server, type' server, local_label] dnsTypeTxt
                 (StreamParts (text' server))) w
   \<and> snd (AddTxtAdditional server (a, w)) = snd (AddTxtAnswer server (a, w))
   \<and> take (length (StreamHostname owner)) (Record owner t rdata) = StreamHostname owner
   \<and> StreamHostname (l # ls) = of_nat (length l) # l @ StreamHostname ls
   \<and> StreamHostname [] = [0]"
  by (simp add: AddAAnswer_def AddAAdditional_def AddAaaaAnswer_def AddAaaaAdditional_def
      AddPtrAnswer_def AddSrvAnswer_def AddSrvAdditional_def AddTxtAnswer_def AddTxtAdditional_def
      AddA_Record AddAaaa_Record AddPtr_Record AddSrv_Record AddTxt_Record Record_def StreamHostname_def
      split: option.splits)

text \<open>
  C8. The source defines \<^verbatim>\<open>rnameCompression\<close>, the bytes 0xC0 and 12, under the comment
  that the question is repeated in the answer, so that a record can point to the name
  behind the header. The builder does neither. The datagram of the example is a query for
  the A record of \<^verbatim>\<open>dev.local\<close>. The header of the reply has the questions count 0 and no
  question follows it; the name field of the one record, behind the twelve bytes of the
  header, is the eleven bytes of the name \<^verbatim>\<open>dev.local\<close>. They are not the two bytes of
  \<^verbatim>\<open>rnameCompression\<close> and do not start with them.
\<close>

theorem record_name_not_compressed:
  "writer (QuestionParser_writing exampleServer exampleQueryA (ByteOutputStreamWriter []))
     = ByteOutputStreamWriter
         ([0x12, 0x34, 0x80, 0, 0, 0, 0, 1, 0, 0, 0, 0]
          @ [3, 0x64, 0x65, 0x76, 5, 0x6C, 0x6F, 0x63, 0x61, 0x6C, 0]
          @ [0, 1, 0, 1, 0, 0, 0, 60, 0, 4] @ [192, 168, 1, 10])
   \<and> ParseHeader [0x12, 0x34, 0x80, 0, 0, 0, 0, 1, 0, 0, 0, 0]
       = \<lparr>id' = 0x1234, flags = flagsResponse, questionsCount = 0, hdrAnswersCount = 1,
          hdrNameServersCount = 0, hdrAdditionalRecordsCount = 0\<rparr>
   \<and> rnameCompression = [0xC0, 12]
   \<and> [3, 0x64, 0x65, 0x76, 5, 0x6C, 0x6F, 0x63, 0x61, 0x6C, 0] \<noteq> rnameCompression
   \<and> take 2 [3, 0x64, 0x65, 0x76, 5, 0x6C, 0x6F, 0x63, 0x61, 0x6C, 0] \<noteq> rnameCompression"
  by code_simp

section \<open>The SRV record\<close>

text \<open>
  C10. An SRV record, as an answer or as an additional record, has the full instance name
  as its owner and carries priority 0, weight 0, the configured port and the target
  \<^verbatim>\<open>instance.local\<close>; its length field is the 16-bit value of 6 plus the encoded length of
  the target, which is that number itself as long as it fits the field.
\<close>

theorem srv_record_rdata:
  "snd (AddSrvAnswer server (a, w))
     = Insert
         (StreamHostname [instance' server, serviceName server, type' server, local_label]
          @ BigEndian16 dnsTypeSrv @ BigEndian16 dnsClassIn @ BigEndian32 60
          @ BigEndian16 (of_nat (6 + length (StreamHostname [instance' server, local_label])))
          @ BigEndian16 0 @ BigEndian16 0 @ BigEndian16 (port server)
          @ StreamHostname [instance' server, local_label]) w
   \<and> snd (AddSrvAdditional server (a, w)) = snd (AddSrvAnswer server (a, w))
   \<and> StreamHostname [instance' server, local_label]
       = of_nat (length (instance' server)) # instance' server @ [5, 0x6C, 0x6F, 0x63, 0x61, 0x6C, 0]
   \<and> (length (instance' server) + 14 < 65536 \<longrightarrow>
        unat (of_nat (6 + length (StreamHostname [instance' server, local_label])) :: uint16)
          = 6 + length (StreamHostname [instance' server, local_label]))"
proof -
  have l: "length (StreamHostname [instance' server, local_label]) = length (instance' server) + 8"
    by (simp add: StreamHostname_def local_label_def chars_def)
  have u: "unat (of_nat m :: uint16) = m" if "m < 65536" for m
    using that by (simp add: unat_of_nat)
  have "unat (of_nat (6 + length (StreamHostname [instance' server, local_label])) :: uint16)
          = 6 + length (StreamHostname [instance' server, local_label])"
    if "length (instance' server) + 14 < 65536"
  proof -
    have "6 + length (StreamHostname [instance' server, local_label]) < 65536"
      using that l by linarith
    then show ?thesis by (rule u)
  qed
  moreover have "StreamHostname [instance' server, local_label]
       = of_nat (length (instance' server)) # instance' server @ [5, 0x6C, 0x6F, 0x63, 0x61, 0x6C, 0]"
    by (simp add: StreamHostname_def local_label_def chars_def)
  moreover have "snd (AddSrvAnswer server (a, w))
     = Insert
         (StreamHostname [instance' server, serviceName server, type' server, local_label]
          @ BigEndian16 dnsTypeSrv @ BigEndian16 dnsClassIn @ BigEndian32 60
          @ BigEndian16 (of_nat (6 + length (StreamHostname [instance' server, local_label])))
          @ BigEndian16 0 @ BigEndian16 0 @ BigEndian16 (port server)
          @ StreamHostname [instance' server, local_label]) w"
    by (cases w) (simp_all add: AddSrvAnswer_def AddSrv_def Let_def StreamPayload_def
        length_StreamHostname add.commute)
  moreover have "snd (AddSrvAdditional server (a, w)) = snd (AddSrvAnswer server (a, w))"
    by (simp add: AddSrvAnswer_def AddSrvAdditional_def AddSrv_def Let_def)
  ultimately show ?thesis by blast
qed

theorem srv_record_rdata_witness:
  "length (instance' exampleServer) + 14 < 65536
   \<and> unat (of_nat (6 + length (StreamHostname [instance' exampleServer, local_label])) :: uint16)
          = 6 + length (StreamHostname [instance' exampleServer, local_label])
   \<and> snd (AddSrvAnswer exampleServer (fst (Answer_new 7 (ByteOutputStreamWriter [])), ByteOutputStreamWriter []))
       = ByteOutputStreamWriter
          ([3, 0x64, 0x65, 0x76, 5, 0x5F, 0x68, 0x74, 0x74, 0x70, 4, 0x5F, 0x74, 0x63, 0x70,
            5, 0x6C, 0x6F, 0x63, 0x61, 0x6C, 0]
           @ [0, 33, 0, 1, 0, 0, 0, 60, 0, 17] @ [0, 0, 0, 0, 0, 80]
           @ [3, 0x64, 0x65, 0x76, 5, 0x6C, 0x6F, 0x63, 0x61, 0x6C, 0])"
proof -
  have h: "length (instance' exampleServer) + 14 < 65536"
    by (simp add: exampleServer_def chars_def)
  have e: "snd (AddSrvAnswer exampleServer (fst (Answer_new 7 (ByteOutputStreamWriter [])), ByteOutputStreamWriter []))
       = ByteOutputStreamWriter
          ([3, 0x64, 0x65, 0x76, 5, 0x5F, 0x68, 0x74, 0x74, 0x70, 4, 0x5F, 0x74, 0x63, 0x70,
            5, 0x6C, 0x6F, 0x63, 0x61, 0x6C, 0]
           @ [0, 33, 0, 1, 0, 0, 0, 60, 0, 17] @ [0, 0, 0, 0, 0, 80]
           @ [3, 0x64, 0x65, 0x76, 5, 0x6C, 0x6F, 0x63, 0x61, 0x6C, 0])"
    by code_simp
  have u: "unat (of_nat (6 + length (StreamHostname [instance' exampleServer, local_label])) :: uint16)
          = 6 + length (StreamHostname [instance' exampleServer, local_label])"
    by (rule mp[OF srv_record_rdata[of exampleServer "fst (Answer_new 7 (ByteOutputStreamWriter []))"
            "ByteOutputStreamWriter []", THEN conjunct2, THEN conjunct2, THEN conjunct2] h])
  show ?thesis
    by (intro conjI h u e)
qed

section \<open>A failing question invalidates the query\<close>

text \<open>
  C4. When the header is accepted and one of the declared questions fails the parser's
  test, in the first sub-pass or in the second, the attempt is invalid and the builder
  is discarded: the dry run has no answer, \<^verbatim>\<open>DataReceived\<close> requests no send stream and
  retains no reader, and the real pass would discard its builder too, however many
  questions before the failing one were answered. The test fails when the footer is
  truncated, when its type is unsupported and when its class is not Internet; a
  malformed name makes it fail by leaving no footer to read (\<open>malformed_name_fails\<close>).
  The second sub-pass makes no test of its own: it reads the same bytes as the first, so
  a question that fails there has failed in the first sub-pass.
\<close>

theorem failing_question_discards_answer:
  assumes "HeaderOf r = Some h" and "\<not> HeaderRejected (Some h)"
    and "k < unat (questionsCount h)"
    and "QuestionFails (FirstSubPass k server r) \<or> QuestionFails (SecondSubPass k server r)"
  shows "\<not> valid (QuestionParser_counting server r)
       \<and> answer (QuestionParser_counting server r) = None
       \<and> \<not> HasAnswer (QuestionParser_counting server r)
       \<and> requestedSendStreams (DataReceived server st r sender) = requestedSendStreams st
       \<and> waitingReader (DataReceived server st r sender) = waitingReader st
       \<and> answer (QuestionParser_writing server r (ByteOutputStreamWriter [])) = None"
proof -
  let ?init = "QuestionParser_members r (CountingStreamWriter 0)"
  have v: "IsValidQuestion (ReadHeader ?init)" and hd: "header (ReadHeader ?init) = h"
    using accepted_valid[OF assms(1,2)] by simp_all
  have a: "\<not> aborted ?init" and vq: "valid ?init"
    by (simp_all add: QuestionParser_members_def)
  have k: "k < unat (questionsCount (header (ReadHeader ?init)))"
    using assms(3) by (simp add: hd)
  have first: "QuestionFails (ReadQuestions k server (EmplaceAnswer (ReadHeader ?init)))
      \<or> \<not> valid (ReadQuestions (unat (questionsCount (header (ReadHeader ?init)))) server
                    (EmplaceAnswer (ReadHeader ?init)))"
  proof (cases "QuestionFails (FirstSubPass k server r)")
    case True
    then show ?thesis by (simp add: FirstSubPass_def)
  next
    case False
    with assms(4) have "QuestionFails (SecondSubPass k server r)" by simp
    then show ?thesis
      by (intro failing_question_second_pass[OF v a k vq])
         (simp add: SecondSubPass_def Let_def)
  qed
  have c: "\<not> valid (CreateAnswer server ?init) \<and> answer (CreateAnswer server ?init) = None"
  proof (cases "QuestionFails (ReadQuestions k server (EmplaceAnswer (ReadHeader ?init)))")
    case True
    from failing_question_first_pass[OF v a k True] show ?thesis .
  next
    case False
    with first have nv: "\<not> valid (ReadQuestions (unat (questionsCount (header (ReadHeader ?init)))) server
                    (EmplaceAnswer (ReadHeader ?init)))" by simp
    with v show ?thesis by (rule CreateAnswer_first_pass_invalid)
  qed
  have dry: "\<not> valid (QuestionParser_counting server r) \<and> answer (QuestionParser_counting server r) = None"
    using c by (simp add: QuestionParser_counting_def Let_def)
  then have n: "\<not> HasAnswer (QuestionParser_counting server r)"
    by (simp add: HasAnswer_def)
  have "answer (CreateAnswer server (QuestionParser_members r (ByteOutputStreamWriter []))) = None"
    using c by (simp add: dry_is_view counting_view_def)
  then have real: "answer (QuestionParser_writing server r (ByteOutputStreamWriter [])) = None"
    by (simp add: QuestionParser_writing_def Let_def)
  show ?thesis using dry n real by (simp add: DataReceived_def Let_def)
qed

theorem failing_question_discards_answer_witness:
  "HeaderOf exampleTwoQuestions
     = Some \<lparr>id' = 0x1234, flags = 0, questionsCount = 2, hdrAnswersCount = 0,
             hdrNameServersCount = 0, hdrAdditionalRecordsCount = 0\<rparr>
   \<and> \<not> HeaderRejected
         (Some \<lparr>id' = 0x1234, flags = 0, questionsCount = 2, hdrAnswersCount = 0,
                 hdrNameServersCount = 0, hdrAdditionalRecordsCount = 0\<rparr>)
   \<and> Suc 0 < unat (2 :: uint16)
   \<and> QuestionFails (FirstSubPass (Suc 0) exampleServer exampleTwoQuestions)
   \<and> map_option answersCount (answer (FirstSubPass (Suc 0) exampleServer exampleTwoQuestions)) = Some 1
   \<and> answer (QuestionParser_counting exampleServer exampleTwoQuestions) = None
   \<and> \<not> HasAnswer (QuestionParser_counting exampleServer exampleTwoQuestions)
   \<and> requestedSendStreams (DataReceived exampleServer idle exampleTwoQuestions exampleSender) = []
   \<and> waitingReader (DataReceived exampleServer idle exampleTwoQuestions exampleSender) = None"
proof -
  let ?h = "\<lparr>id' = 0x1234, flags = 0, questionsCount = 2, hdrAnswersCount = 0,
             hdrNameServersCount = 0, hdrAdditionalRecordsCount = 0\<rparr> :: DnsRecordHeader"
  have h1: "HeaderOf exampleTwoQuestions = Some ?h"
    by code_simp
  have h2: "\<not> HeaderRejected (Some ?h)"
    by code_simp
  have h3: "Suc 0 < unat (questionsCount ?h)"
    by simp
  have h4: "QuestionFails (FirstSubPass (Suc 0) exampleServer exampleTwoQuestions)"
    by code_simp
  have h5: "map_option answersCount (answer (FirstSubPass (Suc 0) exampleServer exampleTwoQuestions)) = Some 1"
    by code_simp
  from failing_question_discards_answer[OF h1 h2 h3 disjI1[OF h4], of idle exampleSender]
  show ?thesis
    using h1 h2 h4 h5 by (simp add: idle_def)
qed

section \<open>A query for the address of the short name\<close>

text \<open>
  C6. Take a query whose header is accepted and declares one question, of type A and
  class Internet, whose name is the short instance name: decoded and dot-joined as
  \<^verbatim>\<open>ReadHostname\<close> does, it has the two labels \<^verbatim>\<open>instance\<close> and \<^verbatim>\<open>local\<close>. With an IPv4
  address configured the answers count is 1, a send stream is requested, and the reply
  is the header with one answer and no additional record followed by the one A record
  of \<^verbatim>\<open>instance.local\<close> with that address. Without an IPv4 address the answers count
  stays 0 and nothing is requested. Every query that carries the name in plain encoding
  is such a query when the instance name is a label of 1 to 63 bytes without a dot
  (\<open>encoded_question\<close>, \<open>labels_of_joined_name\<close>).
\<close>

theorem short_name_A_query_one_answer:
  assumes "HeaderOf r = Some h" and "\<not> HeaderRejected (Some h)" and "questionsCount h = 1"
    and "DnsHostnamePartsStream (AfterHeader r) = (labels, r1)"
    and "DnsHostnamePartsString (JoinParts labels) = [instance' server, local_label]"
    and "Extract 4 r1 = (Some fb, r2)"
    and "ParseFooter fb = \<lparr>footer_type = dnsTypeA, footer_class = dnsClassIn\<rparr>"
  shows "case ipv4Address server of
           None \<Rightarrow>
             map_option answersCount (answer (QuestionParser_counting server r)) = Some 0
             \<and> \<not> HasAnswer (QuestionParser_counting server r)
             \<and> requestedSendStreams (DataReceived server st r sender) = requestedSendStreams st
         | Some address \<Rightarrow>
             map_option answersCount (answer (QuestionParser_counting server r)) = Some 1
             \<and> HasAnswer (QuestionParser_counting server r)
             \<and> writer (QuestionParser_writing server r (ByteOutputStreamWriter []))
                 = ByteOutputStreamWriter
                     (StreamHeader \<lparr>id' = id' h, flags = flagsResponse, questionsCount = 0,
                                     hdrAnswersCount = 1, hdrNameServersCount = 0,
                                     hdrAdditionalRecordsCount = 0\<rparr>
                      @ Record [instance' server, local_label] dnsTypeA (IPv4Bytes address))"
proof (cases "ipv4Address server")
  case None
  have "answer (CreateAnswer server (QuestionParser_members r (CountingStreamWriter 0)))
          = Some \<lparr>queryId = id' h, startMarker = 0, answersCount = 0, nameServersCount = 0,
                  additionalRecordsCount = 0\<rparr>"
    unfolding short_name_A_CreateAnswer[OF assms]
    using None by (simp add: on_answer_def AddAAnswer_result)
  then have a: "answer (QuestionParser_counting server r)
          = Some \<lparr>queryId = id' h, startMarker = 0, answersCount = 0, nameServersCount = 0,
                  additionalRecordsCount = 0\<rparr>"
    by (simp add: QuestionParser_counting_def Let_def)
  then have n: "\<not> HasAnswer (QuestionParser_counting server r)"
    by (simp add: HasAnswer_def Answers_def)
  show ?thesis using None a n by (simp add: DataReceived_def Let_def)
next
  case (Some address)
  let ?a = "\<lparr>queryId = id' h, startMarker = 0, answersCount = 1, nameServersCount = 0,
             additionalRecordsCount = 0\<rparr> :: Answer"
  let ?rec = "Record [instance' server, local_label] dnsTypeA (IPv4Bytes address)"
  have "answer (CreateAnswer server (QuestionParser_members r (CountingStreamWriter 0))) = Some ?a"
    unfolding short_name_A_CreateAnswer[OF assms]
    using Some by (simp add: on_answer_def AddAAnswer_result)
  then have a: "answer (QuestionParser_counting server r) = Some ?a"
    by (simp add: QuestionParser_counting_def Let_def)
  then have y: "HasAnswer (QuestionParser_counting server r)"
    by (simp add: HasAnswer_def Answers_def)
  have ra: "answer (CreateAnswer server (QuestionParser_members r (ByteOutputStreamWriter []))) = Some ?a"
    unfolding short_name_A_CreateAnswer[OF assms]
    using Some by (simp add: on_answer_def AddAAnswer_result)
  have rw: "writer (CreateAnswer server (QuestionParser_members r (ByteOutputStreamWriter [])))
              = ByteOutputStreamWriter (StreamHeader (ProvisionalHeader (id' h)) @ ?rec)"
    unfolding short_name_A_CreateAnswer[OF assms]
    using Some by (simp add: on_answer_def AddAAnswer_result)
  have "writer (QuestionParser_writing server r (ByteOutputStreamWriter []))
          = ByteOutputStreamWriter (StreamHeader (FinalHeader ?a) @ ?rec)"
    by (simp add: writer_QuestionParser_writing ra rw Finish_fresh)
  then show ?thesis using Some a y by (simp add: FinalHeader_def)
qed

theorem short_name_A_query_one_answer_witness:
  "HeaderOf exampleQueryA
     = Some \<lparr>id' = 0x1234, flags = 0, questionsCount = 1, hdrAnswersCount = 0,
             hdrNameServersCount = 0, hdrAdditionalRecordsCount = 0\<rparr>
   \<and> DnsHostnamePartsStream (AfterHeader exampleQueryA)
       = ([chars ''dev'', chars ''local''], exampleQueryA\<lparr>position := 23\<rparr>)
   \<and> Extract 4 (exampleQueryA\<lparr>position := 23\<rparr>) = (Some [0, 1, 0, 1], exampleQueryA\<lparr>position := 27\<rparr>)
   \<and> HasAnswer (QuestionParser_counting exampleServer exampleQueryA)
   \<and> writer (QuestionParser_writing exampleServer exampleQueryA (ByteOutputStreamWriter []))
       = ByteOutputStreamWriter
           (StreamHeader \<lparr>id' = 0x1234, flags = flagsResponse, questionsCount = 0,
                           hdrAnswersCount = 1, hdrNameServersCount = 0,
                           hdrAdditionalRecordsCount = 0\<rparr>
            @ Record [chars ''dev'', chars ''local''] dnsTypeA [192, 168, 1, 10])
   \<and> map_option answersCount (answer (QuestionParser_counting exampleServerWithoutAddress exampleQueryA))
       = Some 0
   \<and> \<not> HasAnswer (QuestionParser_counting exampleServerWithoutAddress exampleQueryA)"
proof -
  let ?h = "\<lparr>id' = 0x1234, flags = 0, questionsCount = 1, hdrAnswersCount = 0,
             hdrNameServersCount = 0, hdrAdditionalRecordsCount = 0\<rparr> :: DnsRecordHeader"
  have h1: "HeaderOf exampleQueryA = Some ?h"
    by code_simp
  have h2: "\<not> HeaderRejected (Some ?h)"
    by code_simp
  have h3: "questionsCount ?h = 1"
    by simp
  have h4: "DnsHostnamePartsStream (AfterHeader exampleQueryA)
              = ([chars ''dev'', chars ''local''], exampleQueryA\<lparr>position := 23\<rparr>)"
    by code_simp
  have h5: "DnsHostnamePartsString (JoinParts [chars ''dev'', chars ''local''])
              = [instance' exampleServer, local_label]"
    by code_simp
  have h5': "DnsHostnamePartsString (JoinParts [chars ''dev'', chars ''local''])
              = [instance' exampleServerWithoutAddress, local_label]"
    by code_simp
  have h6: "Extract 4 (exampleQueryA\<lparr>position := 23\<rparr>)
              = (Some [0, 1, 0, 1], exampleQueryA\<lparr>position := 27\<rparr>)"
    by code_simp
  have h7: "ParseFooter [0, 1, 0, 1] = \<lparr>footer_type = dnsTypeA, footer_class = dnsClassIn\<rparr>"
    by code_simp
  have i: "instance' exampleServer = chars ''dev''"
    "ipv4Address exampleServer = Some (IPv4Address 192 168 1 10)"
    "ipv4Address exampleServerWithoutAddress = None"
    by (simp_all add: exampleServer_def exampleServerWithoutAddress_def)
  from short_name_A_query_one_answer[OF h1 h2 h3 h4 h5 h6 h7, of idle exampleSender]
  have with_address: "HasAnswer (QuestionParser_counting exampleServer exampleQueryA)
     \<and> writer (QuestionParser_writing exampleServer exampleQueryA (ByteOutputStreamWriter []))
       = ByteOutputStreamWriter
           (StreamHeader \<lparr>id' = 0x1234, flags = flagsResponse, questionsCount = 0,
                           hdrAnswersCount = 1, hdrNameServersCount = 0,
                           hdrAdditionalRecordsCount = 0\<rparr>
            @ Record [chars ''dev'', chars ''local''] dnsTypeA [192, 168, 1, 10])"
    by (simp add: i local_label_def)
  from short_name_A_query_one_answer[OF h1 h2 h3 h4 h5' h6 h7, of idle exampleSender]
  have without_address:
    "map_option answersCount (answer (QuestionParser_counting exampleServerWithoutAddress exampleQueryA))
       = Some 0
     \<and> \<not> HasAnswer (QuestionParser_counting exampleServerWithoutAddress exampleQueryA)"
    by (simp add: i)
  show ?thesis
    using h1 h4 h6 with_address without_address by simp
qed

section \<open>A query for the pointer record\<close>

text \<open>
  C2, as the code has it. The example is a valid query with one question of type PTR
  that names the full service instance \<^verbatim>\<open>dev._http._tcp.local\<close> of the responder; the
  answers count of the dry run is 0, not 1, and the datagram is dropped.
\<close>

theorem full_instance_PTR_counterexample:
  "HeaderOf exampleQueryPtrInstance
     = Some \<lparr>id' = 0x1234, flags = 0, questionsCount = 1, hdrAnswersCount = 0,
             hdrNameServersCount = 0, hdrAdditionalRecordsCount = 0\<rparr>
   \<and> DnsHostnamePartsStream (AfterHeader exampleQueryPtrInstance)
       = ([instance' exampleServer, serviceName exampleServer, type' exampleServer, local_label],
          exampleQueryPtrInstance\<lparr>position := 34\<rparr>)
   \<and> Extract 4 (exampleQueryPtrInstance\<lparr>position := 34\<rparr>)
       = (Some (BigEndian16 dnsTypePtr @ BigEndian16 dnsClassIn), exampleQueryPtrInstance\<lparr>position := 38\<rparr>)
   \<and> map_option answersCount (answer (QuestionParser_counting exampleServer exampleQueryPtrInstance))
       = Some 0
   \<and> \<not> HasAnswer (QuestionParser_counting exampleServer exampleQueryPtrInstance)
   \<and> DataReceived exampleServer idle exampleQueryPtrInstance exampleSender = idle"
  by code_simp

text \<open>
  C2, amended. \<^verbatim>\<open>IsQueryForMe\<close> matches a PTR question against the service name. Take a
  query whose header is accepted and declares one question, of type PTR and class
  Internet. When its name has the three labels \<^verbatim>\<open>serviceName\<close>, \<^verbatim>\<open>type\<close> and \<^verbatim>\<open>local\<close>, the
  reply has the answers count 1, for the PTR record, and the additional-records count
  2 plus the number of configured addresses: the TXT and the SRV record always, the A
  record when an IPv4 address is configured and the AAAA record when an IPv6 address is.
  When its name has the four labels \<^verbatim>\<open>instance\<close>, \<^verbatim>\<open>serviceName\<close>, \<^verbatim>\<open>type\<close> and \<^verbatim>\<open>local\<close> of
  the full service instance, it is not answered: both counts of the dry run stay 0, no
  send stream is requested and no reader is retained.
\<close>

theorem PTR_query_answered_for_service_name_only:
  assumes "HeaderOf r = Some h" and "\<not> HeaderRejected (Some h)" and "questionsCount h = 1"
    and "DnsHostnamePartsStream (AfterHeader r) = (labels, r1)"
    and "Extract 4 r1 = (Some fb, r2)"
    and "ParseFooter fb = \<lparr>footer_type = dnsTypePtr, footer_class = dnsClassIn\<rparr>"
  shows "(DnsHostnamePartsString (JoinParts labels) = [serviceName server, type' server, local_label] \<longrightarrow>
          HasAnswer (QuestionParser_counting server r)
          \<and> writer (QuestionParser_writing server r (ByteOutputStreamWriter []))
              = ByteOutputStreamWriter
                  (StreamHeader \<lparr>id' = id' h, flags = flagsResponse, questionsCount = 0,
                                  hdrAnswersCount = 1, hdrNameServersCount = 0,
                                  hdrAdditionalRecordsCount = 2 + AddressCount server\<rparr>
                   @ Record [serviceName server, type' server, local_label] dnsTypePtr
                       (StreamHostname [instance' server, serviceName server, type' server, local_label])
                   @ Record [instance' server, serviceName server, type' server, local_label] dnsTypeTxt
                       (StreamParts (text' server))
                   @ Record [instance' server, serviceName server, type' server, local_label] dnsTypeSrv
                       (BigEndian16 0 @ BigEndian16 0 @ BigEndian16 (port server)
                        @ StreamHostname [instance' server, local_label])
                   @ AddressRecords server)
          \<and> unat (2 + AddressCount server)
              = 2 + (case ipv4Address server of None \<Rightarrow> 0 | Some address \<Rightarrow> 1)
                  + (case ipv6Address server of None \<Rightarrow> 0 | Some address \<Rightarrow> 1))
       \<and> (DnsHostnamePartsString (JoinParts labels)
             = [instance' server, serviceName server, type' server, local_label] \<longrightarrow>
          map_option answersCount (answer (QuestionParser_counting server r)) = Some 0
          \<and> map_option additionalRecordsCount (answer (QuestionParser_counting server r)) = Some 0
          \<and> \<not> HasAnswer (QuestionParser_counting server r)
          \<and> requestedSendStreams (DataReceived server st r sender) = requestedSendStreams st
          \<and> waitingReader (DataReceived server st r sender) = waitingReader st)"
proof (rule conjI; rule impI)
  assume n: "DnsHostnamePartsString (JoinParts labels) = [serviceName server, type' server, local_label]"
  note hyps = assms(1,2,3,4) n assms(5,6)
  let ?a = "\<lparr>queryId = id' h, startMarker = 0, answersCount = 1, nameServersCount = 0,
             additionalRecordsCount = 2 + AddressCount server\<rparr> :: Answer"
  have "answer (CreateAnswer server (QuestionParser_members r (CountingStreamWriter 0))) = Some ?a"
    using service_PTR_result(1)[OF hyps, of "CountingStreamWriter 0"] by simp
  then have "answer (QuestionParser_counting server r) = Some ?a"
    by (simp add: QuestionParser_counting_def Let_def)
  then have y: "HasAnswer (QuestionParser_counting server r)"
    by (simp add: HasAnswer_def Answers_def)
  have ra: "answer (CreateAnswer server (QuestionParser_members r (ByteOutputStreamWriter []))) = Some ?a"
    using service_PTR_result(1)[OF hyps, of "ByteOutputStreamWriter []"] by simp
  have w: "writer (QuestionParser_writing server r (ByteOutputStreamWriter []))
           = ByteOutputStreamWriter
               (StreamHeader (FinalHeader ?a)
                @ Record [serviceName server, type' server, local_label] dnsTypePtr
                    (StreamHostname [instance' server, serviceName server, type' server, local_label])
                @ Record [instance' server, serviceName server, type' server, local_label] dnsTypeTxt
                    (StreamParts (text' server))
                @ Record [instance' server, serviceName server, type' server, local_label] dnsTypeSrv
                    (BigEndian16 0 @ BigEndian16 0 @ BigEndian16 (port server)
                     @ StreamHostname [instance' server, local_label])
                @ AddressRecords server)"
    unfolding writer_QuestionParser_writing ra
      service_PTR_result(2)[OF hyps, of "ByteOutputStreamWriter []"]
    by (simp add: Finish_fresh)
  have u: "unat (2 + AddressCount server)
           = 2 + (case ipv4Address server of None \<Rightarrow> 0 | Some address \<Rightarrow> 1)
               + (case ipv6Address server of None \<Rightarrow> 0 | Some address \<Rightarrow> 1)"
    by (cases "ipv4Address server"; cases "ipv6Address server") (simp_all add: AddressCount_def)
  show "HasAnswer (QuestionParser_counting server r)
          \<and> writer (QuestionParser_writing server r (ByteOutputStreamWriter []))
              = ByteOutputStreamWriter
                  (StreamHeader \<lparr>id' = id' h, flags = flagsResponse, questionsCount = 0,
                                  hdrAnswersCount = 1, hdrNameServersCount = 0,
                                  hdrAdditionalRecordsCount = 2 + AddressCount server\<rparr>
                   @ Record [serviceName server, type' server, local_label] dnsTypePtr
                       (StreamHostname [instance' server, serviceName server, type' server, local_label])
                   @ Record [instance' server, serviceName server, type' server, local_label] dnsTypeTxt
                       (StreamParts (text' server))
                   @ Record [instance' server, serviceName server, type' server, local_label] dnsTypeSrv
                       (BigEndian16 0 @ BigEndian16 0 @ BigEndian16 (port server)
                        @ StreamHostname [instance' server, local_label])
                   @ AddressRecords server)
          \<and> unat (2 + AddressCount server)
              = 2 + (case ipv4Address server of None \<Rightarrow> 0 | Some address \<Rightarrow> 1)
                  + (case ipv6Address server of None \<Rightarrow> 0 | Some address \<Rightarrow> 1)"
    using y w u by (simp add: FinalHeader_def)
next
  assume n: "DnsHostnamePartsString (JoinParts labels)
               = [instance' server, serviceName server, type' server, local_label]"
  then have ne: "DnsHostnamePartsString (JoinParts labels) \<noteq> [serviceName server, type' server, local_label]"
    by simp
  let ?a = "\<lparr>queryId = id' h, startMarker = 0, answersCount = 0, nameServersCount = 0,
             additionalRecordsCount = 0\<rparr> :: Answer"
  have "answer (CreateAnswer server (QuestionParser_members r (CountingStreamWriter 0))) = Some ?a"
    unfolding other_name_PTR_CreateAnswer[OF assms(1,2,3,4) ne assms(5,6)] by simp
  then have a: "answer (QuestionParser_counting server r) = Some ?a"
    by (simp add: QuestionParser_counting_def Let_def)
  then have y: "\<not> HasAnswer (QuestionParser_counting server r)"
    by (simp add: HasAnswer_def Answers_def)
  show "map_option answersCount (answer (QuestionParser_counting server r)) = Some 0
          \<and> map_option additionalRecordsCount (answer (QuestionParser_counting server r)) = Some 0
          \<and> \<not> HasAnswer (QuestionParser_counting server r)
          \<and> requestedSendStreams (DataReceived server st r sender) = requestedSendStreams st
          \<and> waitingReader (DataReceived server st r sender) = waitingReader st"
    using a y by (simp add: DataReceived_def Let_def)
qed

theorem PTR_query_answered_for_service_name_only_witness:
  "HeaderOf exampleQueryPtrService
     = Some \<lparr>id' = 0x1234, flags = 0, questionsCount = 1, hdrAnswersCount = 0,
             hdrNameServersCount = 0, hdrAdditionalRecordsCount = 0\<rparr>
   \<and> DnsHostnamePartsStream (AfterHeader exampleQueryPtrService)
       = ([chars ''_http'', chars ''_tcp'', chars ''local''], exampleQueryPtrService\<lparr>position := 30\<rparr>)
   \<and> Extract 4 (exampleQueryPtrService\<lparr>position := 30\<rparr>)
       = (Some [0, 12, 0, 1], exampleQueryPtrService\<lparr>position := 34\<rparr>)
   \<and> HasAnswer (QuestionParser_counting exampleServer exampleQueryPtrService)
   \<and> unat (2 + AddressCount exampleServer) = 3
   \<and> take 12 (case writer (QuestionParser_writing exampleServer exampleQueryPtrService
                              (ByteOutputStreamWriter [])) of
                 CountingStreamWriter n \<Rightarrow> []
               | ByteOutputStreamWriter out \<Rightarrow> out)
       = [0x12, 0x34, 0x80, 0, 0, 0, 0, 1, 0, 0, 0, 3]
   \<and> HeaderOf exampleQueryPtrInstance
       = Some \<lparr>id' = 0x1234, flags = 0, questionsCount = 1, hdrAnswersCount = 0,
               hdrNameServersCount = 0, hdrAdditionalRecordsCount = 0\<rparr>
   \<and> DnsHostnamePartsStream (AfterHeader exampleQueryPtrInstance)
       = ([chars ''dev'', chars ''_http'', chars ''_tcp'', chars ''local''],
          exampleQueryPtrInstance\<lparr>position := 34\<rparr>)
   \<and> Extract 4 (exampleQueryPtrInstance\<lparr>position := 34\<rparr>)
       = (Some [0, 12, 0, 1], exampleQueryPtrInstance\<lparr>position := 38\<rparr>)
   \<and> map_option answersCount (answer (QuestionParser_counting exampleServer exampleQueryPtrInstance))
       = Some 0
   \<and> map_option additionalRecordsCount
        (answer (QuestionParser_counting exampleServer exampleQueryPtrInstance)) = Some 0
   \<and> \<not> HasAnswer (QuestionParser_counting exampleServer exampleQueryPtrInstance)
   \<and> requestedSendStreams (DataReceived exampleServer idle exampleQueryPtrInstance exampleSender) = []
   \<and> waitingReader (DataReceived exampleServer idle exampleQueryPtrInstance exampleSender) = None"
proof -
  let ?h = "\<lparr>id' = 0x1234, flags = 0, questionsCount = 1, hdrAnswersCount = 0,
             hdrNameServersCount = 0, hdrAdditionalRecordsCount = 0\<rparr> :: DnsRecordHeader"
  have h1: "HeaderOf exampleQueryPtrService = Some ?h"
    by code_simp
  have h2: "\<not> HeaderRejected (Some ?h)"
    by code_simp
  have h3: "questionsCount ?h = 1"
    by simp
  have h4: "DnsHostnamePartsStream (AfterHeader exampleQueryPtrService)
              = ([chars ''_http'', chars ''_tcp'', chars ''local''], exampleQueryPtrService\<lparr>position := 30\<rparr>)"
    by code_simp
  have h5: "DnsHostnamePartsString (JoinParts [chars ''_http'', chars ''_tcp'', chars ''local''])
              = [serviceName exampleServer, type' exampleServer, local_label]"
    by code_simp
  have h6: "Extract 4 (exampleQueryPtrService\<lparr>position := 30\<rparr>)
              = (Some [0, 12, 0, 1], exampleQueryPtrService\<lparr>position := 34\<rparr>)"
    by code_simp
  have h7: "ParseFooter [0, 12, 0, 1] = \<lparr>footer_type = dnsTypePtr, footer_class = dnsClassIn\<rparr>"
    by code_simp
  have c: "AddressCount exampleServer = 1"
    by (simp add: AddressCount_def exampleServer_def)
  have hd: "StreamHeader \<lparr>id' = 0x1234, flags = flagsResponse, questionsCount = 0,
                               hdrAnswersCount = 1, hdrNameServersCount = 0,
                               hdrAdditionalRecordsCount = 3\<rparr>
              = [0x12, 0x34, 0x80, 0, 0, 0, 0, 1, 0, 0, 0, 3]"
    by (simp add: StreamHeader_def BigEndian16_def flagsResponse_def)
  note t = mp[OF PTR_query_answered_for_service_name_only[OF h1 h2 h3 h4 h6 h7, THEN conjunct1] h5]
  have a: "HasAnswer (QuestionParser_counting exampleServer exampleQueryPtrService)"
    by (rule t[THEN conjunct1])
  have u: "unat (2 + AddressCount exampleServer) = 3"
    by (simp add: c)
  have w: "take 12 (case writer (QuestionParser_writing exampleServer exampleQueryPtrService
                              (ByteOutputStreamWriter [])) of
                 CountingStreamWriter n \<Rightarrow> []
               | ByteOutputStreamWriter out \<Rightarrow> out)
       = [0x12, 0x34, 0x80, 0, 0, 0, 0, 1, 0, 0, 0, 3]"
    unfolding t[THEN conjunct2, THEN conjunct1] by (simp add: c hd)
  have i1: "HeaderOf exampleQueryPtrInstance = Some ?h"
    by code_simp
  have i4: "DnsHostnamePartsStream (AfterHeader exampleQueryPtrInstance)
              = ([chars ''dev'', chars ''_http'', chars ''_tcp'', chars ''local''],
                 exampleQueryPtrInstance\<lparr>position := 34\<rparr>)"
    by code_simp
  have i5: "DnsHostnamePartsString (JoinParts [chars ''dev'', chars ''_http'', chars ''_tcp'', chars ''local''])
              = [instance' exampleServer, serviceName exampleServer, type' exampleServer, local_label]"
    by code_simp
  have i6: "Extract 4 (exampleQueryPtrInstance\<lparr>position := 34\<rparr>)
              = (Some [0, 12, 0, 1], exampleQueryPtrInstance\<lparr>position := 38\<rparr>)"
    by code_simp
  note d = mp[OF PTR_query_answered_for_service_name_only[OF i1 h2 h3 i4 i6 h7, THEN conjunct2,
                  of exampleServer idle exampleSender] i5]
  have s: "requestedSendStreams idle = []" "waitingReader idle = None"
    by (simp_all add: idle_def)
  have d1: "map_option answersCount (answer (QuestionParser_counting exampleServer exampleQueryPtrInstance))
              = Some 0"
    by (rule d[THEN conjunct1])
  have d2: "map_option additionalRecordsCount
              (answer (QuestionParser_counting exampleServer exampleQueryPtrInstance)) = Some 0"
    by (rule d[THEN conjunct2, THEN conjunct1])
  have d3: "\<not> HasAnswer (QuestionParser_counting exampleServer exampleQueryPtrInstance)"
    by (rule d[THEN conjunct2, THEN conjunct2, THEN conjunct1])
  have d4: "requestedSendStreams (DataReceived exampleServer idle exampleQueryPtrInstance exampleSender) = []"
    using d[THEN conjunct2, THEN conjunct2, THEN conjunct2, THEN conjunct1] by (simp only: s)
  have d5: "waitingReader (DataReceived exampleServer idle exampleQueryPtrInstance exampleSender) = None"
    using d[THEN conjunct2, THEN conjunct2, THEN conjunct2, THEN conjunct2] by (simp only: s)
  show ?thesis
    by (intro conjI h1 h4 h6 a u w i1 i4 i6 d1 d2 d3 d4 d5)
qed

end
